theory Spec2Isabelle
  imports Main "HOL-Library.Word"
begin

unbundle bit_operations_syntax

section \<open>Data model\<close>

text \<open>
  A C \<^verbatim>\<open>unsigned\<close> is a 32-bit word: \<open>+\<close>, \<open>-\<close> and \<open>*\<close> wrap around, \<open>div\<close> is
  the unsigned division and \<open>\<le>\<close> the unsigned comparison. A byte of a file or of a
  buffer is an 8-bit word.
\<close>

type_synonym byte = "8 word"
type_synonym u32 = "32 word"

text \<open>
  The constants of \<^verbatim>\<open>bootimg.h\<close>, which is not among the sources, are parameters of the
  model: the magic string and the capacities of the three text fields.
\<close>

record bootimg_h =
  BOOT_MAGIC :: "byte list"
  BOOT_NAME_SIZE :: nat
  BOOT_ARGS_SIZE :: nat
  BOOT_EXTRA_ARGS_SIZE :: nat

text \<open>
  Modelled from the spec: \<^verbatim>\<open>BOOT_MAGIC_SIZE\<close> is declared in \<^verbatim>\<open>bootimg.h\<close>, which is
  missing; the spec gives the magic as a fixed 8-byte tag.
\<close>

definition BOOT_MAGIC_SIZE :: nat where
  "BOOT_MAGIC_SIZE = 8"

text \<open>
  Modelled from the spec: the struct \<^verbatim>\<open>boot_img_hdr\<close> is declared in \<^verbatim>\<open>bootimg.h\<close>,
  which is missing; the fields and their order are those of the spec's table of the
  binary layout, under the names \<^verbatim>\<open>abootimg.c\<close> uses. The arrays are byte lists; \<open>id'\<close>
  (\<^verbatim>\<open>unsigned id[8]\<close>) is kept as the 32 bytes it occupies in memory.
\<close>

record boot_img_hdr =
  magic :: "byte list"
  kernel_size :: u32
  kernel_addr :: u32
  ramdisk_size :: u32
  ramdisk_addr :: u32
  second_size :: u32
  second_addr :: u32
  tags_addr :: u32
  page_size :: u32
  dt_size :: u32
  unused :: u32
  name :: "byte list"
  cmdline :: "byte list"
  id' :: "byte list"
  extra_cmdline :: "byte list"

text \<open>
  A \<^verbatim>\<open>FILE*\<close> opened on the boot image: the bytes of the backing file or device, the
  position of the stream and whether the backing store is a block device.
\<close>

record file_stream =
  contents :: "byte list"
  pos :: nat
  blk :: bool

text \<open>
  The struct \<^verbatim>\<open>t_abootimg\<close>. A \<^verbatim>\<open>char*\<close> that may be \<^verbatim>\<open>NULL\<close> is an option; a section
  buffer is the list of the bytes allocated for it.
\<close>

record t_abootimg =
  size' :: u32
  is_blkdev :: bool
  fname :: string
  config_fname :: "string option"
  kernel_fname :: "string option"
  ramdisk_fname :: "string option"
  second_fname :: "string option"
  devtree_fname :: "string option"
  stream :: file_stream
  header :: boot_img_hdr
  kernel :: "byte list option"
  ramdisk :: "byte list option"
  second :: "byte list option"
  devtree :: "byte list option"

section \<open>Page rounding\<close>

definition padding_size :: "u32 \<Rightarrow> u32 \<Rightarrow> u32" where
  "padding_size image_size page_size' =
     (let delta = image_size AND (page_size' - 1)
      in if delta = 0 then 0 else page_size' - delta)"

text \<open>
  The expression \<^verbatim>\<open>(size + page_size - 1) / page_size\<close>, which the source writes out
  for every section in \<^verbatim>\<open>check_boot_img_header\<close>, \<^verbatim>\<open>update_images\<close> and
  \<^verbatim>\<open>write_bootimg\<close>.
\<close>

definition npages :: "u32 \<Rightarrow> u32 \<Rightarrow> u32" where
  "npages image_size page_size' = (image_size + page_size' - 1) div page_size'"

text \<open>
  \<^verbatim>\<open>total_size\<close> as \<^verbatim>\<open>check_boot_img_header\<close> and the end of \<^verbatim>\<open>update_images\<close>
  compute it from the header.
\<close>

definition total_size :: "boot_img_hdr \<Rightarrow> u32" where
  "total_size h =
     (let page_size' = page_size h;
          n = npages (kernel_size h) page_size';
          m = npages (ramdisk_size h) page_size';
          o' = npages (second_size h) page_size';
          p = npages (dt_size h) page_size'
      in (1 + n + m + o' + p) * page_size')"

text \<open>
  The offsets at which \<^verbatim>\<open>write_bootimg\<close> places the sections: the kernel follows the
  header and its padding, the other three are the arguments of \<^verbatim>\<open>fseek\<close>.
\<close>

definition kernel_offset :: "boot_img_hdr \<Rightarrow> u32" where
  "kernel_offset h = page_size h"

definition ramdisk_offset :: "boot_img_hdr \<Rightarrow> u32" where
  "ramdisk_offset h =
     (let psize = page_size h;
          n = npages (kernel_size h) psize
      in (1 + n) * psize)"

definition second_offset :: "boot_img_hdr \<Rightarrow> u32" where
  "second_offset h =
     (let psize = page_size h;
          n = npages (kernel_size h) psize;
          m = npages (ramdisk_size h) psize
      in (1 + n + m) * psize)"

definition devtree_offset :: "boot_img_hdr \<Rightarrow> u32" where
  "devtree_offset h =
     (let psize = page_size h;
          n = npages (kernel_size h) psize;
          m = npages (ramdisk_size h) psize;
          o' = npages (second_size h) psize
      in (1 + n + m + o') * psize)"

section \<open>C strings\<close>

text \<open>
  \<^verbatim>\<open>strncmp\<close> on two character arrays: a list is the bytes of the array, and the end of
  the list reads as the terminating NUL. The result is negative, zero or positive.
\<close>

fun strncmp :: "byte list \<Rightarrow> byte list \<Rightarrow> nat \<Rightarrow> int" where
  "strncmp s1 s2 0 = 0"
| "strncmp s1 s2 (Suc n) =
     (let c1 = (case s1 of [] \<Rightarrow> 0 | c # _ \<Rightarrow> c);
          c2 = (case s2 of [] \<Rightarrow> 0 | c # _ \<Rightarrow> c)
      in if c1 \<noteq> c2 then (if c1 < c2 then - 1 else 1)
         else if c1 = 0 then 0
         else strncmp (tl s1) (tl s2) n)"

section \<open>Validation of a header\<close>

text \<open>
  \<^verbatim>\<open>check_boot_img_header\<close> returns 1 for a header it rejects and 0 for one it accepts.
  The tests of \<^verbatim>\<open>dt_size\<close>, \<^verbatim>\<open>name\<close> and \<^verbatim>\<open>cmdline\<close> only print a message.
\<close>

definition check_boot_img_header :: "bootimg_h \<Rightarrow> t_abootimg \<Rightarrow> int" where
  "check_boot_img_header c img =
     (if strncmp (magic (header img)) (BOOT_MAGIC c) BOOT_MAGIC_SIZE \<noteq> 0 then 1
      else if kernel_size (header img) = 0 then 1
      else if ramdisk_size (header img) = 0 then 1
      else if page_size (header img) = 0 then 1
      else if total_size (header img) > size' img then 1
      else 0)"

section \<open>A fresh image\<close>

text \<open>A string literal of the source as the bytes of its characters.\<close>

definition bytes_of :: "string \<Rightarrow> byte list" where
  "bytes_of s = map of_char s"

text \<open>
  \<^verbatim>\<open>new_bootimg\<close>: \<^verbatim>\<open>calloc\<close> zeroes the struct, then the default file names, the magic
  and the default page size are set. The stream is not open yet.
\<close>

definition new_bootimg :: "bootimg_h \<Rightarrow> t_abootimg" where
  "new_bootimg c =
     \<lparr>size' = 0, is_blkdev = False, fname = [],
      config_fname = Some ''bootimg.cfg'', kernel_fname = Some ''zImage'',
      ramdisk_fname = Some ''initrd.img'', second_fname = Some ''stage2.img'',
      devtree_fname = Some ''dt.img'',
      stream = \<lparr>contents = [], pos = 0, blk = False\<rparr>,
      header =
        \<lparr>magic = take BOOT_MAGIC_SIZE (BOOT_MAGIC c @ [0]),
         kernel_size = 0, kernel_addr = 0, ramdisk_size = 0, ramdisk_addr = 0,
         second_size = 0, second_addr = 0, tags_addr = 0, page_size = 2048,
         dt_size = 0, unused = 0,
         name = replicate (BOOT_NAME_SIZE c) 0,
         cmdline = replicate (BOOT_ARGS_SIZE c) 0,
         id' = replicate 32 0,
         extra_cmdline = replicate (BOOT_EXTRA_ARGS_SIZE c) 0\<rparr>,
      kernel = None, ramdisk = None, second = None, devtree = None\<rparr>"

text \<open>
  The values that the Android boot image format gives the constants of \<^verbatim>\<open>bootimg.h\<close>;
  the concrete instances below are stated for them.
\<close>

definition android_bootimg_h :: bootimg_h where
  "android_bootimg_h =
     \<lparr>BOOT_MAGIC = bytes_of ''ANDROID!'', BOOT_NAME_SIZE = 16, BOOT_ARGS_SIZE = 512,
      BOOT_EXTRA_ARGS_SIZE = 1024\<rparr>"

section \<open>The page arithmetic of the specification\<close>

text \<open>
  The specification's \<open>pages(size) = ceil(size / page_size)\<close>, on natural numbers, to
  compare the 32-bit computations of the source with.
\<close>

definition pages_spec :: "nat \<Rightarrow> nat \<Rightarrow> nat" where
  "pages_spec s p = (s + p - 1) div p"

definition total_size_spec :: "boot_img_hdr \<Rightarrow> nat" where
  "total_size_spec h =
     (let p = unat (page_size h)
      in (1 + pages_spec (unat (kernel_size h)) p + pages_spec (unat (ramdisk_size h)) p
            + pages_spec (unat (second_size h)) p + pages_spec (unat (dt_size h)) p) * p)"

text \<open>The 32-bit powers of two.\<close>

definition is_power_of_two :: "u32 \<Rightarrow> bool" where
  "is_power_of_two w \<longleftrightarrow> w \<in> set (map (\<lambda>k. 2 ^ k) [0..<32])"

section \<open>Errors\<close>

text \<open>
  The source ends the process on an error, with \<^verbatim>\<open>abort_perror\<close> after a library call
  that failed or with \<^verbatim>\<open>abort_printf\<close> and a message. An error is a value here, one
  per message; \<open>Undefined_behaviour\<close> stands for what C leaves undefined (a read beyond
  a buffer or through \<^verbatim>\<open>NULL\<close>, a write beyond an array, a division by zero).
  Failures of the environment that the data do not determine (no memory, an I/O error
  of the device) are not modelled.
\<close>

datatype error =
    Perror
  | Not_a_valid_image
  | Cmdline_too_long
  | Extra_cmdline_too_long
  | Cannot_change_size
  | Bad_config_entry
  | Page_size_null
  | Updated_too_big
  | Undefined_behaviour

definition on_ok :: "error + 'a \<Rightarrow> ('a \<Rightarrow> error + 'b) \<Rightarrow> error + 'b" where
  "on_ok r f = (case r of Inl e \<Rightarrow> Inl e | Inr x \<Rightarrow> f x)"

section \<open>The stream of the boot image\<close>

definition fseek :: "file_stream \<Rightarrow> nat \<Rightarrow> file_stream" where
  "fseek s offset = s\<lparr>pos := offset\<rparr>"

text \<open>
  \<^verbatim>\<open>fread(ptr, size, 1, stream)\<close>: one item of \<open>size\<close> bytes is read when the file has
  them after the position and \<open>size\<close> is not zero, and the call returns 1; else it
  returns 0, which is \<open>None\<close> here. A read that returned 1 has not met the end of the
  file, so the \<^verbatim>\<open>feof\<close> branches that follow the reads in the source cannot be taken.
\<close>

definition fread :: "nat \<Rightarrow> file_stream \<Rightarrow> byte list option \<times> file_stream" where
  "fread size'' s =
     (if size'' \<noteq> 0 \<and> pos s + size'' \<le> length (contents s)
      then (Some (take size'' (drop (pos s) (contents s))), s\<lparr>pos := pos s + size''\<rparr>)
      else (None, s))"

text \<open>
  The result of a step that writes: the error that ended the process, if any, and the
  stream as the step left it.
\<close>

type_synonym wres = "error option \<times> file_stream"

definition and_then :: "wres \<Rightarrow> (file_stream \<Rightarrow> wres) \<Rightarrow> wres" where
  "and_then r f = (case r of (None, s) \<Rightarrow> f s | (Some e, s) \<Rightarrow> (Some e, s))"

text \<open>
  \<^verbatim>\<open>fwrite(ptr, size, 1, stream)\<close> with the test of \<^verbatim>\<open>ferror\<close> that follows each call in
  the source. The \<open>size\<close> bytes are taken from the buffer \<open>ptr\<close>; they overwrite the
  file from the position on, a regular file grows as needed (a gap left by a seek
  beyond its end reads as zeros). A block device cannot grow: a write that passes its
  end fills the device up to the end and fails. Writes reach the file at once: the
  buffer of the stream is not modelled.
\<close>

definition fwrite :: "byte list option \<Rightarrow> nat \<Rightarrow> file_stream \<Rightarrow> wres" where
  "fwrite ptr size'' s =
     (if size'' = 0 then (None, s)
      else case ptr of
        None \<Rightarrow> (Some Undefined_behaviour, s)
      | Some d \<Rightarrow>
          if length d < size'' then (Some Undefined_behaviour, s)
          else if blk s \<and> length (contents s) < pos s + size''
          then (Some Perror,
                s\<lparr>contents := take (pos s) (contents s)
                                 @ take (length (contents s) - pos s) d\<rparr>)
          else (None, s\<lparr>contents := take (pos s) (contents s)
                                  @ replicate (pos s - length (contents s)) 0
                                  @ take size'' d
                                  @ drop (pos s + size'') (contents s),
                        pos := pos s + size''\<rparr>))"

text \<open>
  \<^verbatim>\<open>ftruncate\<close> sets the length of a regular file, cutting it or extending it with
  zeros; on a block device it fails, and the source ignores its result.
\<close>

definition ftruncate :: "file_stream \<Rightarrow> nat \<Rightarrow> file_stream" where
  "ftruncate s len =
     (if blk s then s
      else s\<lparr>contents := take len (contents s) @ replicate (len - length (contents s)) 0\<rparr>)"

section \<open>The header in memory and in the file\<close>

text \<open>
  The four bytes of a 32-bit field in memory, and back. The source reads and writes the
  struct as it stands in memory; the byte order is that of a little-endian host.
\<close>

definition le32 :: "u32 \<Rightarrow> byte list" where
  "le32 w = [ucast w, ucast (drop_bit 8 w), ucast (drop_bit 16 w), ucast (drop_bit 24 w)]"

definition rd32 :: "byte list \<Rightarrow> u32" where
  "rd32 bs =
     (case bs of
        a # b # c # d # _ \<Rightarrow>
          ucast a OR push_bit 8 (ucast b) OR push_bit 16 (ucast c) OR push_bit 24 (ucast d)
      | _ \<Rightarrow> 0)"

text \<open>
  Modelled from the spec: \<^verbatim>\<open>sizeof(boot_img_hdr)\<close> and the place of each field follow
  the spec's table of the binary layout (the declaration of the struct is missing):
  the magic, ten 32-bit fields, the name, the command line, the eight words of the id
  and the extra command line, with no padding between them.
\<close>

definition sizeof_boot_img_hdr :: "bootimg_h \<Rightarrow> nat" where
  "sizeof_boot_img_hdr c =
     BOOT_MAGIC_SIZE + 10 * 4 + BOOT_NAME_SIZE c + BOOT_ARGS_SIZE c + 8 * 4
       + BOOT_EXTRA_ARGS_SIZE c"

definition hdr_bytes :: "boot_img_hdr \<Rightarrow> byte list" where
  "hdr_bytes h =
     magic h @ le32 (kernel_size h) @ le32 (kernel_addr h) @ le32 (ramdisk_size h)
       @ le32 (ramdisk_addr h) @ le32 (second_size h) @ le32 (second_addr h)
       @ le32 (tags_addr h) @ le32 (page_size h) @ le32 (dt_size h) @ le32 (unused h)
       @ name h @ cmdline h @ id' h @ extra_cmdline h"

definition hdr_of_bytes :: "bootimg_h \<Rightarrow> byte list \<Rightarrow> boot_img_hdr" where
  "hdr_of_bytes c bs =
     \<lparr>magic = take BOOT_MAGIC_SIZE bs,
      kernel_size = rd32 (drop 8 bs), kernel_addr = rd32 (drop 12 bs),
      ramdisk_size = rd32 (drop 16 bs), ramdisk_addr = rd32 (drop 20 bs),
      second_size = rd32 (drop 24 bs), second_addr = rd32 (drop 28 bs),
      tags_addr = rd32 (drop 32 bs), page_size = rd32 (drop 36 bs),
      dt_size = rd32 (drop 40 bs), unused = rd32 (drop 44 bs),
      name = take (BOOT_NAME_SIZE c) (drop 48 bs),
      cmdline = take (BOOT_ARGS_SIZE c) (drop (48 + BOOT_NAME_SIZE c) bs),
      id' = take 32 (drop (48 + BOOT_NAME_SIZE c + BOOT_ARGS_SIZE c) bs),
      extra_cmdline = take (BOOT_EXTRA_ARGS_SIZE c)
        (drop (48 + BOOT_NAME_SIZE c + BOOT_ARGS_SIZE c + 32) bs)\<rparr>"

text \<open>The arrays of a header have the lengths that the struct gives them.\<close>

definition hdr_wf :: "bootimg_h \<Rightarrow> boot_img_hdr \<Rightarrow> bool" where
  "hdr_wf c h \<longleftrightarrow>
     length (magic h) = BOOT_MAGIC_SIZE \<and> length (name h) = BOOT_NAME_SIZE c
     \<and> length (cmdline h) = BOOT_ARGS_SIZE c \<and> length (id' h) = 32
     \<and> length (extra_cmdline h) = BOOT_EXTRA_ARGS_SIZE c"

section \<open>Opening and reading an image\<close>

text \<open>
  \<^verbatim>\<open>open_bootimg\<close>: \<open>target\<close> is the file or device that \<^verbatim>\<open>fopen\<close> finds under the
  name of the image, \<open>None\<close> when it cannot be opened.
\<close>

definition open_bootimg :: "t_abootimg \<Rightarrow> file_stream option \<Rightarrow> error + t_abootimg" where
  "open_bootimg img target =
     (case target of
        None \<Rightarrow> Inl Perror
      | Some s \<Rightarrow> Inr (img\<lparr>stream := s\<lparr>pos := 0\<rparr>\<rparr>))"

text \<open>
  \<^verbatim>\<open>read_header\<close>. The size of the file (\<^verbatim>\<open>st_size\<close>) or of the device is assigned to
  the \<^verbatim>\<open>unsigned\<close> field \<^verbatim>\<open>size\<close>, which keeps its low 32 bits.
\<close>

definition read_header :: "bootimg_h \<Rightarrow> t_abootimg \<Rightarrow> error + t_abootimg" where
  "read_header c img =
     (case fread (sizeof_boot_img_hdr c) (stream img) of
        (None, _) \<Rightarrow> Inl Perror
      | (Some bs, s) \<Rightarrow>
          let img1 = img\<lparr>stream := s, header := hdr_of_bytes c bs\<rparr>;
              img2 = (if blk s
                      then img1\<lparr>size' := of_nat (length (contents s)), is_blkdev := True\<rparr>
                      else img1\<lparr>size' := of_nat (length (contents s)), is_blkdev := False\<rparr>)
          in if check_boot_img_header c img2 \<noteq> 0 then Inl Not_a_valid_image
             else Inr img2)"

section \<open>More C strings\<close>

text \<open>
  The C string that a buffer holds ends before its first NUL. \<^verbatim>\<open>strspn\<close> and
  \<^verbatim>\<open>strcspn\<close> give the length of the longest prefix of bytes in, respectively not in,
  the second string.
\<close>

definition cstr :: "byte list \<Rightarrow> byte list" where
  "cstr buf = takeWhile (\<lambda>b. b \<noteq> 0) buf"

definition strlen :: "byte list \<Rightarrow> nat" where
  "strlen s = length (cstr s)"

definition strspn :: "byte list \<Rightarrow> byte list \<Rightarrow> nat" where
  "strspn s accept = length (takeWhile (\<lambda>b. b \<in> set accept) (cstr s))"

definition strcspn :: "byte list \<Rightarrow> byte list \<Rightarrow> nat" where
  "strcspn s reject = length (takeWhile (\<lambda>b. b \<notin> set reject) (cstr s))"

definition strcmp :: "byte list \<Rightarrow> byte list \<Rightarrow> int" where
  "strcmp s1 s2 = strncmp s1 s2 (Suc (max (length s1) (length s2)))"

text \<open>
  Writes into an array \<open>dest\<close> of the struct, for a count that does not exceed the
  array. \<^verbatim>\<open>strcpy\<close> writes the string and its NUL; beyond the array the behaviour is
  undefined. \<^verbatim>\<open>strncpy\<close> writes \<open>n\<close> bytes: the string, cut or followed by NULs.
\<close>

definition memset :: "byte list \<Rightarrow> byte \<Rightarrow> nat \<Rightarrow> byte list" where
  "memset dest ch n = replicate n ch @ drop n dest"

definition strcpy :: "byte list \<Rightarrow> byte list \<Rightarrow> error + byte list" where
  "strcpy dest src =
     (let s = cstr src
      in if length s < length dest then Inr (s @ 0 # drop (Suc (length s)) dest)
         else Inl Undefined_behaviour)"

definition strncpy :: "byte list \<Rightarrow> byte list \<Rightarrow> nat \<Rightarrow> byte list" where
  "strncpy dest src n = take n (cstr src @ replicate n 0) @ drop n dest"

definition memcpy :: "byte list \<Rightarrow> byte list \<Rightarrow> nat \<Rightarrow> byte list" where
  "memcpy dest src n = take n src @ drop n dest"

section \<open>Editing the header\<close>

text \<open>
  \<^verbatim>\<open>update_header_entry\<close> on one line \<open>cmd\<close> of the configuration. The line is cut at
  its newline; \<open>token\<close> is what precedes the blanks and the \<open>=\<close> sign, \<open>value'\<close> what
  follows them (32 is the space, 9 the tab, 61 the \<open>=\<close> sign, 10 the newline).
  \<open>strtoul\<close> is the function of the C library, called with base 0; its result is
  assigned to an \<^verbatim>\<open>unsigned\<close>.
\<close>

definition update_header_entry ::
  "bootimg_h \<Rightarrow> (byte list \<Rightarrow> nat) \<Rightarrow> t_abootimg \<Rightarrow> byte list \<Rightarrow> error + t_abootimg" where
  "update_header_entry c strtoul img cmd =
     (let line = takeWhile (\<lambda>b. b \<noteq> 10) (cstr cmd);
          p1 = drop (strspn line [32, 9]) line;
          n = strcspn p1 [32, 61, 9];
          token = take n p1;
          p2 = drop n p1;
          p3 = drop (strspn p2 [32, 9]) p2
      in case p3 of
           [] \<Rightarrow> Inl Bad_config_entry
         | ch # p4 \<Rightarrow>
             if ch \<noteq> 61 then Inl Bad_config_entry
             else
               let value' = drop (strspn p4 [32, 9]) p4;
                   valuenum = (of_nat (strtoul value') :: u32);
                   h = header img
               in if strcmp token (bytes_of ''cmdline'') = 0 then
                    (let len = (of_nat (strlen value') :: u32)
                     in if BOOT_ARGS_SIZE c \<le> unat len then Inl Cmdline_too_long
                        else on_ok (strcpy (memset (cmdline h) 0 (BOOT_ARGS_SIZE c)) value')
                               (\<lambda>buf. Inr (img\<lparr>header := h\<lparr>cmdline := buf\<rparr>\<rparr>)))
                  else if strcmp token (bytes_of ''extra_cmdline'') = 0 then
                    (let len = (of_nat (strlen value') :: u32)
                     in if BOOT_ARGS_SIZE c \<le> unat len then Inl Extra_cmdline_too_long
                        else on_ok (strcpy (memset (extra_cmdline h) 0 (BOOT_EXTRA_ARGS_SIZE c))
                                      value')
                               (\<lambda>buf. Inr (img\<lparr>header := h\<lparr>extra_cmdline := buf\<rparr>\<rparr>)))
                  else if strncmp token (bytes_of ''name'') 4 = 0 then
                    Inr (img\<lparr>header := h\<lparr>name :=
                           (strncpy (name h) value' (BOOT_NAME_SIZE c))
                             [BOOT_NAME_SIZE c - 1 := 0]\<rparr>\<rparr>)
                  else if strncmp token (bytes_of ''bootsize'') 8 = 0 then
                    (if is_blkdev img \<and> size' img \<noteq> valuenum then Inl Cannot_change_size
                     else Inr (img\<lparr>size' := valuenum\<rparr>))
                  else if strncmp token (bytes_of ''pagesize'') 8 = 0 then
                    Inr (img\<lparr>header := h\<lparr>page_size := valuenum\<rparr>\<rparr>)
                  else if strncmp token (bytes_of ''kerneladdr'') 10 = 0 then
                    Inr (img\<lparr>header := h\<lparr>kernel_addr := valuenum\<rparr>\<rparr>)
                  else if strncmp token (bytes_of ''ramdiskaddr'') 11 = 0 then
                    Inr (img\<lparr>header := h\<lparr>ramdisk_addr := valuenum\<rparr>\<rparr>)
                  else if strncmp token (bytes_of ''secondaddr'') 10 = 0 then
                    Inr (img\<lparr>header := h\<lparr>second_addr := valuenum\<rparr>\<rparr>)
                  else if strncmp token (bytes_of ''tagsaddr'') 8 = 0 then
                    Inr (img\<lparr>header := h\<lparr>tags_addr := valuenum\<rparr>\<rparr>)
                  else if strncmp token (bytes_of ''devtree'') 7 = 0 then
                    Inr (img\<lparr>header := h\<lparr>dt_size := valuenum\<rparr>\<rparr>)
                  else Inl Bad_config_entry)"

text \<open>
  The lines that successive calls of \<^verbatim>\<open>getline\<close> return on a text: each ends with its
  newline, but for a last line that has none.
\<close>

fun getlines :: "byte list \<Rightarrow> byte list list" where
  "getlines [] = []"
| "getlines (b # bs) =
     (if b = 10 then [b] # getlines bs
      else case getlines bs of
             [] \<Rightarrow> [[b]]
           | l # ls \<Rightarrow> (b # l) # ls)"

text \<open>The loops of \<^verbatim>\<open>update_header\<close> over the lines: the first error ends the process.\<close>

fun update_header_entries ::
  "bootimg_h \<Rightarrow> (byte list \<Rightarrow> nat) \<Rightarrow> t_abootimg \<Rightarrow> byte list list \<Rightarrow> error + t_abootimg" where
  "update_header_entries c strtoul img [] = Inr img"
| "update_header_entries c strtoul img (l # ls) =
     on_ok (update_header_entry c strtoul img l)
       (\<lambda>img'. update_header_entries c strtoul img' ls)"

text \<open>
  \<^verbatim>\<open>update_header\<close>: the lines of the configuration file, if one is named, then the
  lines of \<^verbatim>\<open>config_args\<close>, the text gathered from the \<^verbatim>\<open>-c\<close> options. \<open>fs\<close> gives the
  contents of the files that can be opened for reading.
\<close>

definition update_header ::
  "bootimg_h \<Rightarrow> (byte list \<Rightarrow> nat) \<Rightarrow> (string \<Rightarrow> byte list option) \<Rightarrow> byte list
     \<Rightarrow> t_abootimg \<Rightarrow> error + t_abootimg" where
  "update_header c strtoul fs config_args img =
     on_ok (case config_fname img of
              None \<Rightarrow> Inr img
            | Some f \<Rightarrow>
                (case fs f of
                   None \<Rightarrow> Inl Perror
                 | Some text \<Rightarrow> update_header_entries c strtoul img (getlines text)))
       (\<lambda>img'. let len = strlen config_args
               in if len \<noteq> 0
                  then update_header_entries c strtoul img' (getlines (take len config_args))
                  else Inr img')"

section \<open>Loading the sections\<close>

text \<open>
  \<^verbatim>\<open>slurp_file\<close> returns the size of the file, as an \<^verbatim>\<open>unsigned\<close>, and its bytes. The
  \<^verbatim>\<open>fread\<close> of one item of \<open>size\<close> bytes returns 0 for an empty file, which aborts.
\<close>

definition slurp_file :: "(string \<Rightarrow> byte list option) \<Rightarrow> string \<Rightarrow> error + (u32 \<times> byte list)" where
  "slurp_file fs fname' =
     (case fs fname' of
        None \<Rightarrow> Inl Perror
      | Some d \<Rightarrow>
          let size'' = (of_nat (length d) :: u32)
          in if size'' = 0 then Inl Perror
             else Inr (size'', take (unat size'') d))"

definition slurp_section :: "t_abootimg \<Rightarrow> u32 \<Rightarrow> u32 \<Rightarrow> error + (byte list \<times> t_abootimg)" where
  "slurp_section img offset size'' =
     (case fread (unat size'') (fseek (stream img) (unat offset)) of
        (None, _) \<Rightarrow> Inl Perror
      | (Some r, s) \<Rightarrow> Inr (r, img\<lparr>stream := s\<rparr>))"

text \<open>
  The four blocks of \<^verbatim>\<open>update_images\<close> that load a section: from the file named for
  it, whose size then goes into the header, or else from the open image at the given
  offset. The kernel and the ramdisk are always read; the second stage and the device
  tree are read from the image only when the header gives them a size. The last three
  blocks also return the local (\<^verbatim>\<open>rsize\<close>, \<^verbatim>\<open>ssize\<close>, \<^verbatim>\<open>dtsize\<close>) that the source
  assigns the size of the file when one is read; the kernel block assigns the field of
  the header only, and leaves \<^verbatim>\<open>ksize\<close> as it was.
\<close>

definition load_kernel ::
  "(string \<Rightarrow> byte list option) \<Rightarrow> t_abootimg \<Rightarrow> u32 \<Rightarrow> error + t_abootimg" where
  "load_kernel fs img koffset =
     (case kernel_fname img of
        Some f \<Rightarrow>
          on_ok (slurp_file fs f)
            (\<lambda>(sz, d). Inr (img\<lparr>header := (header img)\<lparr>kernel_size := sz\<rparr>,
                                 kernel := Some d\<rparr>))
      | None \<Rightarrow>
          on_ok (slurp_section img koffset (kernel_size (header img)))
            (\<lambda>(d, img'). Inr (img'\<lparr>kernel := Some d\<rparr>)))"

definition load_ramdisk ::
  "(string \<Rightarrow> byte list option) \<Rightarrow> t_abootimg \<Rightarrow> u32 \<Rightarrow> u32 \<Rightarrow> error + (u32 \<times> t_abootimg)" where
  "load_ramdisk fs img roffset rsize =
     (case ramdisk_fname img of
        Some f \<Rightarrow>
          on_ok (slurp_file fs f)
            (\<lambda>(sz, d). Inr (sz, img\<lparr>header := (header img)\<lparr>ramdisk_size := sz\<rparr>,
                                     ramdisk := Some d\<rparr>))
      | None \<Rightarrow>
          on_ok (slurp_section img roffset rsize)
            (\<lambda>(d, img'). Inr (rsize, img'\<lparr>ramdisk := Some d\<rparr>)))"

definition load_second ::
  "(string \<Rightarrow> byte list option) \<Rightarrow> t_abootimg \<Rightarrow> u32 \<Rightarrow> u32 \<Rightarrow> error + (u32 \<times> t_abootimg)" where
  "load_second fs img soffset ssize =
     (case second_fname img of
        Some f \<Rightarrow>
          on_ok (slurp_file fs f)
            (\<lambda>(sz, d). Inr (sz, img\<lparr>header := (header img)\<lparr>second_size := sz\<rparr>,
                                     second := Some d\<rparr>))
      | None \<Rightarrow>
          if second_size (header img) \<noteq> 0
          then on_ok (slurp_section img soffset ssize)
                 (\<lambda>(d, img'). Inr (ssize, img'\<lparr>second := Some d\<rparr>))
          else Inr (ssize, img))"

definition load_devtree ::
  "(string \<Rightarrow> byte list option) \<Rightarrow> t_abootimg \<Rightarrow> u32 \<Rightarrow> u32 \<Rightarrow> error + (u32 \<times> t_abootimg)" where
  "load_devtree fs img dtoffset dtsize =
     (case devtree_fname img of
        Some f \<Rightarrow>
          on_ok (slurp_file fs f)
            (\<lambda>(sz, d). Inr (sz, img\<lparr>header := (header img)\<lparr>dt_size := sz\<rparr>,
                                     devtree := Some d\<rparr>))
      | None \<Rightarrow>
          if dt_size (header img) \<noteq> 0
          then on_ok (slurp_section img dtoffset dtsize)
                 (\<lambda>(d, img'). Inr (dtsize, img'\<lparr>devtree := Some d\<rparr>))
          else Inr (dtsize, img))"

text \<open>
  The first part of \<^verbatim>\<open>update_images\<close>, up to the device tree: the four blocks, each at
  the offset computed from the locals \<^verbatim>\<open>ksize\<close>, \<^verbatim>\<open>rsize\<close> and \<^verbatim>\<open>ssize\<close> as the blocks
  before it left them.
\<close>

definition slurp_images :: "(string \<Rightarrow> byte list option) \<Rightarrow> t_abootimg \<Rightarrow> error + t_abootimg" where
  "slurp_images fs img =
     (let page_size' = page_size (header img);
          ksize = kernel_size (header img);
          rsize = ramdisk_size (header img);
          ssize = second_size (header img);
          dtsize = dt_size (header img)
      in if page_size' = 0 then Inl Page_size_null
         else
           let koffset = page_size'
           in on_ok (load_kernel fs img koffset)
                (\<lambda>img.
                   let n = npages ksize page_size';
                       roffset = (1 + n) * page_size'
                   in on_ok (load_ramdisk fs img roffset rsize)
                        (\<lambda>(rsize, img).
                           let m = npages rsize page_size';
                               soffset = (1 + n + m) * page_size'
                           in on_ok (load_second fs img soffset ssize)
                                (\<lambda>(ssize, img).
                                   let o' = npages ssize page_size';
                                       dtoffset = (1 + n + m + o') * page_size'
                                   in on_ok (load_devtree fs img dtoffset dtsize)
                                        (\<lambda>(dtsize, img). Inr img)))))"

text \<open>
  \<^verbatim>\<open>update_images\<close>: the sections are loaded, then the total size of the new header is
  compared with the size of the image, which it sets when that is still zero.
\<close>

definition update_images :: "(string \<Rightarrow> byte list option) \<Rightarrow> t_abootimg \<Rightarrow> error + t_abootimg" where
  "update_images fs img =
     on_ok (slurp_images fs img)
       (\<lambda>img'. let total_size' = total_size (header img')
               in if size' img' = 0 then Inr (img'\<lparr>size' := total_size'\<rparr>)
                  else if total_size' > size' img' then Inl Updated_too_big
                  else Inr img')"

section \<open>The checksum\<close>

text \<open>
  Modelled from the spec: the hash primitive (\<^verbatim>\<open>minicript/sha.c\<close>) is missing; the spec
  takes it as a black box with the operations init, update and finalize. The digest
  size and the hash function are parameters. A context records the data of each call
  of \<^verbatim>\<open>SHA_update\<close>, in order; the digest is the hash of their concatenation. Reading
  \<open>len\<close> bytes needs a buffer that has them.
\<close>

record sha_h =
  SHA_DIGEST_SIZE :: nat
  SHA_hash :: "byte list \<Rightarrow> byte list"

type_synonym SHA_CTX = "byte list list"

definition SHA_init :: "error + SHA_CTX" where
  "SHA_init = Inr []"

definition SHA_update :: "error + SHA_CTX \<Rightarrow> byte list option \<Rightarrow> nat \<Rightarrow> error + SHA_CTX" where
  "SHA_update ctx data len =
     on_ok ctx
       (\<lambda>fed. case data of
                None \<Rightarrow> if len = 0 then Inr (fed @ [[]]) else Inl Undefined_behaviour
              | Some d \<Rightarrow> if len \<le> length d then Inr (fed @ [take len d])
                          else Inl Undefined_behaviour)"

definition SHA_final :: "sha_h \<Rightarrow> SHA_CTX \<Rightarrow> byte list" where
  "SHA_final sha fed = SHA_hash sha (concat fed)"

text \<open>The calls of \<^verbatim>\<open>SHA_update\<close> in \<^verbatim>\<open>write_bootimg\<close>.\<close>

definition sha_feeds :: "t_abootimg \<Rightarrow> error + SHA_CTX" where
  "sha_feeds img =
     (let h = header img;
          ctx = SHA_init;
          ctx = SHA_update ctx (kernel img) (unat (kernel_size h));
          ctx = SHA_update ctx (Some (le32 (kernel_size h))) 4;
          ctx = SHA_update ctx (ramdisk img) (unat (ramdisk_size h));
          ctx = SHA_update ctx (Some (le32 (ramdisk_size h))) 4;
          ctx = SHA_update ctx (second img) (unat (second_size h));
          ctx = SHA_update ctx (Some (le32 (second_size h))) 4
      in if devtree img \<noteq> None
         then SHA_update (SHA_update ctx (devtree img) (unat (dt_size h)))
                (Some (le32 (dt_size h))) 4
         else ctx)"

section \<open>Writing the image\<close>

text \<open>
  The block that follows the write of each section: the padding up to the next page,
  taken from the zeroed buffer \<open>padding\<close> of \<open>psize\<close> bytes.
\<close>

definition write_padding :: "byte list option \<Rightarrow> u32 \<Rightarrow> u32 \<Rightarrow> file_stream \<Rightarrow> wres" where
  "write_padding padding image_size psize s =
     (let pad_size = padding_size image_size psize
      in if pad_size > 0 then fwrite padding (unat pad_size) s else (None, s))"

text \<open>
  \<^verbatim>\<open>write_bootimg\<close>. The page counts are divisions by \<open>psize\<close>, undefined for zero. The
  digest replaces the first bytes of \<^verbatim>\<open>id\<close>: as many as the digest has, at most the 32
  of the field. The size of the padding after the header, \<^verbatim>\<open>psize - sizeof(img->header)\<close>,
  is a \<^verbatim>\<open>size_t\<close> of 64 bits and wraps around below zero. The result is the error that
  ended the process, if any, and the image as the function left it.

  \<^verbatim>\<open>ftruncate\<close> is applied here to the file with every write in it. The source calls it
  on the descriptor while the last bytes written can still be in the buffer of the
  stream, which reach the file when the process exits: where a write ends beyond
  \<^verbatim>\<open>img->size\<close> (a total size that wrapped around, a page size that is no power of two)
  the file of the source can stay longer than the one computed here. Where every write
  ends within \<^verbatim>\<open>img->size\<close> the two orders give the same file.
\<close>

definition write_bootimg :: "bootimg_h \<Rightarrow> sha_h \<Rightarrow> t_abootimg \<Rightarrow> error option \<times> t_abootimg" where
  "write_bootimg c sha img =
     (let psize = page_size (header img);
          padding = Some (replicate (unat psize) (0 :: byte))
      in if psize = 0 then (Some Undefined_behaviour, img)
         else
           let s0 = fseek (stream img) 0
           in case sha_feeds img of
                Inl e \<Rightarrow> (Some e, img\<lparr>stream := s0\<rparr>)
              | Inr ctx \<Rightarrow>
                  let sha' = SHA_final sha ctx;
                      h = (header img)
                            \<lparr>id' := memcpy (id' (header img)) sha'
                                      (if SHA_DIGEST_SIZE sha > 32 then 32
                                       else SHA_DIGEST_SIZE sha)\<rparr>;
                      r = fwrite (Some (hdr_bytes h)) (sizeof_boot_img_hdr c) s0;
                      r = and_then r
                            (fwrite padding
                               ((unat psize + 2 ^ 64 - sizeof_boot_img_hdr c) mod 2 ^ 64));
                      r = and_then r
                            (\<lambda>s. if kernel img \<noteq> None
                                  then and_then
                                         (fwrite (kernel img) (unat (kernel_size h)) s)
                                         (write_padding padding (kernel_size h) psize)
                                  else (None, s));
                      r = and_then r
                            (\<lambda>s. if ramdisk img \<noteq> None
                                  then and_then
                                         (fwrite (ramdisk img) (unat (ramdisk_size h))
                                            (fseek s (unat (ramdisk_offset h))))
                                         (write_padding padding (ramdisk_size h) psize)
                                  else (None, s));
                      r = and_then r
                            (\<lambda>s. if second_size h \<noteq> 0
                                  then and_then
                                         (fwrite (second img) (unat (second_size h))
                                            (fseek s (unat (second_offset h))))
                                         (write_padding padding (second_size h) psize)
                                  else (None, s));
                      r = and_then r
                            (\<lambda>s. if dt_size h \<noteq> 0
                                  then and_then
                                         (fwrite (devtree img) (unat (dt_size h))
                                            (fseek s (unat (devtree_offset h))))
                                         (write_padding padding (dt_size h) psize)
                                  else (None, s));
                      r = and_then r (\<lambda>s. (None, ftruncate s (unat (size' img))))
                  in (fst r, img\<lparr>header := h, stream := snd r\<rparr>))"

section \<open>The update command\<close>

text \<open>
  The case \<^verbatim>\<open>update\<close> of \<^verbatim>\<open>main\<close>, for an image \<open>img\<close> as \<^verbatim>\<open>parse_args\<close> filled it from
  the command line: the image is opened for reading and writing, its header read and
  edited, the sections loaded and the image written. The result is the error that
  ended the process, if any, and the bytes of the file or device at its end.
\<close>

definition main_update ::
  "bootimg_h \<Rightarrow> sha_h \<Rightarrow> (byte list \<Rightarrow> nat) \<Rightarrow> (string \<Rightarrow> byte list option) \<Rightarrow> byte list
     \<Rightarrow> t_abootimg \<Rightarrow> file_stream \<Rightarrow> error option \<times> byte list" where
  "main_update c sha strtoul fs config_args img target =
     (case on_ok (on_ok (on_ok (open_bootimg img (Some target)) (read_header c))
                    (update_header c strtoul fs config_args))
             (update_images fs) of
        Inl e \<Rightarrow> (Some e, contents target)
      | Inr img' \<Rightarrow>
          (case write_bootimg c sha img' of
             (e, img'') \<Rightarrow> (e, contents (stream img''))))"

text \<open>The image that \<^verbatim>\<open>parse_args\<close> leaves for \<^verbatim>\<open>-u\<close>: the file names of the options.\<close>

definition update_args ::
  "bootimg_h \<Rightarrow> string \<Rightarrow> string option \<Rightarrow> string option \<Rightarrow> string option \<Rightarrow> string option
     \<Rightarrow> string option \<Rightarrow> t_abootimg" where
  "update_args c bootimg f k r s t =
     (new_bootimg c)
       \<lparr>fname := bootimg, config_fname := f, kernel_fname := k, ramdisk_fname := r,
        second_fname := s, devtree_fname := t\<rparr>"

section \<open>A sample container\<close>

text \<open>
  The container of the concrete instances below, of five pages of 2048 bytes: the
  header, a kernel of one byte (\<open>0x4B\<close>), a ramdisk of 4096 bytes (each \<open>0xAA\<close>), a
  second stage of one byte (\<open>0x55\<close>) and no device tree, each section padded with
  zeros to the end of its page.
\<close>

definition sample_hdr :: boot_img_hdr where
  "sample_hdr =
     (header (new_bootimg android_bootimg_h))
       \<lparr>kernel_size := 1, ramdisk_size := 4096, second_size := 1\<rparr>"

definition sample_image :: "byte list" where
  "sample_image =
     hdr_bytes sample_hdr @ replicate 416 0 @ [0x4B] @ replicate 2047 0
       @ replicate 4096 0xAA @ [0x55] @ replicate 2047 0"

definition sample_target :: file_stream where
  "sample_target = \<lparr>contents = sample_image, pos = 0, blk = False\<rparr>"

text \<open>
  A stand-in for the hash of the concrete instances, with the digest size of SHA-1;
  no instance depends on the value of its digest.
\<close>

definition sample_sha :: sha_h where
  "sample_sha = \<lparr>SHA_DIGEST_SIZE = 20, SHA_hash = (\<lambda>m. replicate 20 0)\<rparr>"

text \<open>
  The update of the sample container with a new ramdisk of one byte (\<open>0x52\<close>), read
  from the file \<^verbatim>\<open>initrd.new\<close>: the files that can be read, the image that \<^verbatim>\<open>parse_args\<close>
  leaves for \<^verbatim>\<open>abootimg -u boot.img -r initrd.new\<close>, and the image as \<^verbatim>\<open>update_images\<close>
  leaves it, with the sections it loaded.
\<close>

definition sample_fs :: "string \<Rightarrow> byte list option" where
  "sample_fs f = (if f = ''initrd.new'' then Some [0x52] else None)"

definition sample_args :: t_abootimg where
  "sample_args =
     update_args android_bootimg_h ''boot.img'' None None (Some ''initrd.new'') None None"

definition sample_loaded :: t_abootimg where
  "sample_loaded =
     sample_args
       \<lparr>stream := sample_target\<lparr>pos := 6145\<rparr>,
        header := sample_hdr\<lparr>ramdisk_size := 1\<rparr>,
        size' := 10240, is_blkdev := False,
        kernel := Some [0x4B], ramdisk := Some [0x52], second := Some [0xAA]\<rparr>"

section \<open>Lemmas on page rounding\<close>

lemma pages_spec_cases:
  assumes "0 < p"
  shows "pages_spec s p = (if s mod p = 0 then s div p else s div p + 1)"
proof -
  define q r where "q = s div p" and "r = s mod p"
  have s: "s = r + q * p" and r: "r < p"
    using assms by (simp_all add: q_def r_def)
  show ?thesis
  proof (cases "r = 0")
    case True
    have "(p - 1 + q * p) div p = q + (p - 1) div p"
      using assms by (simp only: div_mult_self1)
    then have "(p - 1 + q * p) div p = q" using assms by simp
    then have "(s + p - 1) div p = q" using True s assms by (simp add: add.commute)
    then show ?thesis using True by (simp add: pages_spec_def q_def r_def)
  next
    case False
    have "s + p - 1 = (r - 1) + (q + 1) * p" using False s by simp
    moreover have "((r - 1) + (q + 1) * p) div p = q + 1"
      using r assms by (simp only: div_mult_self1) simp
    ultimately have "(s + p - 1) div p = q + 1" by simp
    then show ?thesis using False by (simp add: pages_spec_def q_def r_def)
  qed
qed

lemma pages_spec_mult:
  assumes "0 < p"
  shows "pages_spec s p * p = s + (p - s mod p) mod p"
proof (cases "s mod p = 0")
  case True
  have "s div p * p + s mod p = s" by (rule div_mult_mod_eq)
  then have "s div p * p = s" using True by simp
  then show ?thesis using True assms by (simp add: pages_spec_cases)
next
  case False
  have lt: "s mod p < p" using assms by simp
  have e: "s div p * p + s mod p = s" by (rule div_mult_mod_eq)
  have "(s div p + 1) * p = s div p * p + p" by simp
  also have "\<dots> = s div p * p + s mod p + (p - s mod p)" using lt by arith
  also have "\<dots> = s + (p - s mod p)" by (simp only: e)
  finally show ?thesis using False assms lt by (simp add: pages_spec_cases)
qed

lemma unat_pow2: "k < 32 \<Longrightarrow> unat ((2::u32) ^ k) = 2 ^ k"
proof -
  assume k: "k < 32"
  have "unat ((2::u32) ^ k) = unat (word_of_nat (2 ^ k) :: u32)" by simp
  also have "\<dots> = 2 ^ k mod 2 ^ 32" by (simp only: unat_of_nat) simp
  also have "\<dots> = 2 ^ k"
  proof -
    have "(2::nat) ^ k < 2 ^ 32" using k by (intro power_strict_increasing) simp_all
    then show ?thesis by (simp only: mod_less)
  qed
  finally show ?thesis .
qed

lemma unat_npages:
  assumes "ps \<noteq> 0" "unat sz + unat ps - 1 < 2 ^ 32"
  shows "unat (npages sz ps) = pages_spec (unat sz) (unat ps)"
proof -
  have pos: "0 < unat ps" using assms(1) by (simp add: unat_gt_0)
  have "unat (sz + (ps - 1)) = unat sz + unat (ps - 1)"
    using assms pos by (subst unat_add_lem [symmetric]) (simp add: unat_minus_one)
  then have "unat (sz + ps - 1) = unat sz + unat ps - 1"
    using assms(1) pos by (simp add: unat_minus_one add_diff_eq)
  then show ?thesis by (simp add: npages_def pages_spec_def unat_div)
qed

lemma unat_padding_size:
  assumes "k < 32"
  shows "unat (padding_size sz (2 ^ k)) = (2 ^ k - unat sz mod 2 ^ k) mod 2 ^ k"
proof -
  have d: "sz AND (2 ^ k - 1) = take_bit k sz"
    by (simp add: take_bit_eq_mask mask_eq_exp_minus_1)
  have u: "unat (take_bit k sz) = unat sz mod 2 ^ k"
    by (simp only: unsigned_take_bit_eq) (simp only: take_bit_eq_mod)
  have lt: "unat sz mod 2 ^ k < 2 ^ k" by simp
  show ?thesis
  proof (cases "take_bit k sz = 0")
    case True
    then have "unat sz mod 2 ^ k = 0" using u by simp
    then show ?thesis using True d by (simp add: padding_size_def)
  next
    case False
    then have "unat (take_bit k sz) \<noteq> 0" by (simp only: unat_eq_0 not_False_eq_True)
    then have nz: "unat sz mod 2 ^ k \<noteq> 0" by (simp only: u not_False_eq_True)
    have le: "take_bit k sz \<le> 2 ^ k"
      using lt assms u by (simp add: word_le_nat_alt unat_pow2 del: unsigned_take_bit_eq)
    have "unat (2 ^ k - take_bit k sz) = 2 ^ k - unat sz mod 2 ^ k"
      using le assms u by (simp add: unat_sub unat_pow2 del: unsigned_take_bit_eq)
    then show ?thesis using False d nz lt by (simp add: padding_size_def Let_def)
  qed
qed

section \<open>Claim C6: tight page rounding and the padding function\<close>

lemma pages_spec_ge: "0 < p \<Longrightarrow> s \<le> pages_spec s p * p"
  by (simp add: pages_spec_mult)

lemma pages_spec_tight: "0 < p \<Longrightarrow> pages_spec s p * p < s + p"
proof -
  assume p: "0 < p"
  show ?thesis
  proof (cases "s mod p = 0")
    case True
    then show ?thesis using p by (simp add: pages_spec_mult)
  next
    case False
    then have "(p - s mod p) mod p = p - s mod p" using p by simp
    then show ?thesis using p False by (simp add: pages_spec_mult)
  qed
qed

lemma pages_spec_0: "0 < p \<Longrightarrow> pages_spec 0 p = 0"
  by (simp add: pages_spec_def)

lemma pad_mod_eq_0_iff:
  fixes p r :: nat
  assumes "0 < p" "r < p"
  shows "(p - r) mod p = 0 \<longleftrightarrow> r = 0"
proof (cases "r = 0")
  case True
  then show ?thesis by simp
next
  case False
  then have "p - r < p" and "p - r \<noteq> 0" using assms by simp_all
  then show ?thesis using False by simp
qed

lemma padding_size_eq_0_iff:
  assumes "k < 32"
  shows "padding_size sz (2 ^ k) = 0 \<longleftrightarrow> 2 ^ k dvd unat sz"
proof -
  have lt: "unat sz mod 2 ^ k < 2 ^ k" by simp
  have "padding_size sz (2 ^ k) = 0 \<longleftrightarrow> unat (padding_size sz (2 ^ k)) = 0"
    by (simp only: unat_eq_0)
  also have "\<dots> \<longleftrightarrow> unat sz mod 2 ^ k = 0"
    using lt by (simp only: unat_padding_size [OF assms]) (rule pad_mod_eq_0_iff, simp_all)
  also have "\<dots> \<longleftrightarrow> 2 ^ k dvd unat sz" by (simp only: mod_eq_0_iff_dvd)
  finally show ?thesis .
qed

text \<open>
  C6, as the source has it. The page count \<^verbatim>\<open>(size + page_size - 1) / page_size\<close> is
  computed on 32 bits: for \<open>size = 0xFFFFFFFF\<close> and \<open>page_size = 2048\<close> the sum wraps
  around and the count is 0, so "pages(size) * page_size \<ge> size for every size" fails.
\<close>

theorem npages_wraps_counterexample:
  "(2048::u32) = 2 ^ 11 \<and> npages 0xFFFFFFFF 2048 = 0
   \<and> \<not> unat (0xFFFFFFFF::u32) \<le> unat (npages 0xFFFFFFFF 2048) * unat (2048::u32)"
  by (simp add: npages_def)

text \<open>
  C6, amended: for every page size \<open>2 ^ k\<close> with \<open>k < 32\<close> and every 32-bit size, if
  \<open>size + page_size - 1\<close> does not overflow 32 bits then the page count \<open>n\<close> of the
  source satisfies \<open>n * page_size \<ge> size\<close> and \<open>n * page_size < size + page_size\<close>
  (tight rounding; the second is \<open>n * page_size - page_size < size\<close> with \<open>page_size\<close>
  moved to the right), and \<^verbatim>\<open>padding_size\<close> returns \<open>n * page_size - size\<close>. For every
  size, \<^verbatim>\<open>padding_size\<close> returns \<open>ceil(size / page_size) * page_size - size\<close>, which is
  0 exactly when \<open>size\<close> is a multiple of \<open>page_size\<close>, and is always strictly less than
  \<open>page_size\<close>.
\<close>

theorem padding_size_page_rounding:
  assumes "k < 32" and "page_size' = (2::u32) ^ k"
  shows "(unat image_size + unat page_size' - 1 < 2 ^ 32 \<longrightarrow>
            unat image_size \<le> unat (npages image_size page_size') * unat page_size'
          \<and> unat (npages image_size page_size') * unat page_size'
               < unat image_size + unat page_size'
          \<and> unat (padding_size image_size page_size')
               = unat (npages image_size page_size') * unat page_size' - unat image_size)
       \<and> unat (padding_size image_size page_size')
            = pages_spec (unat image_size) (unat page_size') * unat page_size' - unat image_size
       \<and> (padding_size image_size page_size' = 0 \<longleftrightarrow> unat page_size' dvd unat image_size)
       \<and> unat (padding_size image_size page_size') < unat page_size'"
proof -
  have P: "unat page_size' = 2 ^ k" using assms by (simp only: unat_pow2)
  have pos: "0 < unat page_size'" using P by simp
  have nz: "page_size' \<noteq> 0" using pos by (simp add: unat_gt_0)
  have pad: "unat (padding_size image_size page_size')
      = (unat page_size' - unat image_size mod unat page_size') mod unat page_size'"
    using unat_padding_size [OF assms(1), of image_size] assms(2) P by simp
  have pad_spec: "unat (padding_size image_size page_size')
      = pages_spec (unat image_size) (unat page_size') * unat page_size' - unat image_size"
    using pad pos by (simp add: pages_spec_mult)
  have pad_lt: "unat (padding_size image_size page_size') < unat page_size'"
    using pad pos by simp
  have pad0: "padding_size image_size page_size' = 0 \<longleftrightarrow> unat page_size' dvd unat image_size"
    using padding_size_eq_0_iff [OF assms(1), of image_size] assms(2) P by simp
  have tight: "unat image_size \<le> unat (npages image_size page_size') * unat page_size'
          \<and> unat (npages image_size page_size') * unat page_size'
               < unat image_size + unat page_size'
          \<and> unat (padding_size image_size page_size')
               = unat (npages image_size page_size') * unat page_size' - unat image_size"
    if nw: "unat image_size + unat page_size' - 1 < 2 ^ 32"
  proof -
    have n: "unat (npages image_size page_size') = pages_spec (unat image_size) (unat page_size')"
      using nz nw by (rule unat_npages)
    have ge: "unat image_size \<le> pages_spec (unat image_size) (unat page_size') * unat page_size'"
      using pos by (rule pages_spec_ge)
    have lt: "pages_spec (unat image_size) (unat page_size') * unat page_size'
        < unat image_size + unat page_size'"
      using pos by (rule pages_spec_tight)
    show ?thesis using n ge lt pad_spec by simp
  qed
  show ?thesis using tight pad_spec pad0 pad_lt by blast
qed

theorem padding_size_page_rounding_witness:
  "(11::nat) < 32 \<and> (2048::u32) = 2 ^ 11 \<and> unat (5000::u32) + unat (2048::u32) - 1 < 2 ^ 32
   \<and> npages 5000 2048 = 3 \<and> unat (padding_size 5000 2048) = 1144
   \<and> padding_size 5000 2048 \<noteq> 0 \<and> padding_size 4096 2048 = 0"
  using padding_size_page_rounding [of 11 2048 5000] padding_size_page_rounding [of 11 2048 4096]
  by (simp add: pages_spec_def npages_def)

section \<open>The magic and the validation of a header\<close>

lemma strncmp_eq_0_iff:
  "length s1 = n \<Longrightarrow> length s2 = n \<Longrightarrow> 0 \<notin> set s2 \<Longrightarrow> strncmp s1 s2 n = 0 \<longleftrightarrow> s1 = s2"
proof (induction n arbitrary: s1 s2)
  case 0
  then show ?case by simp
next
  case (Suc n)
  then obtain a as b bs where s: "s1 = a # as" "s2 = b # bs"
    by (metis length_Suc_conv)
  with Suc.prems have l: "length as = n" "length bs = n" "0 \<notin> set bs" "b \<noteq> 0" by auto
  show ?case using Suc.IH [OF l(1,2,3)] l(4) s by (simp add: Let_def)
qed

lemma bytes_of_ANDROID: "bytes_of ''ANDROID!'' = [65, 78, 68, 82, 79, 73, 68, 33]"
  by (simp add: bytes_of_def)

lemma strncmp_android:
  "strncmp (take BOOT_MAGIC_SIZE (BOOT_MAGIC android_bootimg_h @ [0])) (BOOT_MAGIC android_bootimg_h) BOOT_MAGIC_SIZE = 0"
  by (simp add: android_bootimg_h_def BOOT_MAGIC_SIZE_def bytes_of_ANDROID eval_nat_numeral)

lemma new_bootimg_magic:
  "length (BOOT_MAGIC c) = BOOT_MAGIC_SIZE \<Longrightarrow> magic (header (new_bootimg c)) = BOOT_MAGIC c"
  by (simp add: new_bootimg_def)

section \<open>Claim C7: the page size of an accepted header\<close>

text \<open>
  C7, as the source has it. \<^verbatim>\<open>check_boot_img_header\<close> tests the page size against zero
  only: a header with the magic, a kernel and a ramdisk of one byte each and
  \<open>page_size = 3\<close>, on a backing store of 9 bytes, is accepted, and 3 is no power of two.
\<close>

theorem check_boot_img_header_page_size_3_counterexample:
  "check_boot_img_header android_bootimg_h
     ((new_bootimg android_bootimg_h)
        \<lparr>size' := 9,
         header := (header (new_bootimg android_bootimg_h))
           \<lparr>kernel_size := 1, ramdisk_size := 1, page_size := 3\<rparr>\<rparr>) = 0
   \<and> \<not> is_power_of_two 3"
proof -
  have "\<not> is_power_of_two 3" by code_simp
  moreover have "check_boot_img_header android_bootimg_h
     ((new_bootimg android_bootimg_h)
        \<lparr>size' := 9,
         header := (header (new_bootimg android_bootimg_h))
           \<lparr>kernel_size := 1, ramdisk_size := 1, page_size := 3\<rparr>\<rparr>) = 0"
    using strncmp_android
    by (simp add: check_boot_img_header_def new_bootimg_def total_size_def npages_def)
  ultimately show ?thesis by blast
qed

text \<open>
  C7, amended: every header accepted by the read-time validation has a page size that is
  not zero. (That it is a power of two is not tested.)
\<close>

theorem check_boot_img_header_nonzero_page_size:
  "check_boot_img_header c img = 0 \<Longrightarrow> page_size (header img) \<noteq> 0"
  by (simp add: check_boot_img_header_def split: if_splits)

theorem check_boot_img_header_nonzero_page_size_witness:
  "check_boot_img_header android_bootimg_h
     ((new_bootimg android_bootimg_h)
        \<lparr>size' := 6144,
         header := (header (new_bootimg android_bootimg_h))
           \<lparr>kernel_size := 1, ramdisk_size := 1\<rparr>\<rparr>) = 0
   \<and> page_size (header ((new_bootimg android_bootimg_h)
        \<lparr>size' := 6144,
         header := (header (new_bootimg android_bootimg_h))
           \<lparr>kernel_size := 1, ramdisk_size := 1\<rparr>\<rparr>)) \<noteq> 0"
proof -
  have a: "check_boot_img_header android_bootimg_h
     ((new_bootimg android_bootimg_h)
        \<lparr>size' := 6144,
         header := (header (new_bootimg android_bootimg_h))
           \<lparr>kernel_size := 1, ramdisk_size := 1\<rparr>\<rparr>) = 0"
    using strncmp_android
    by (simp add: check_boot_img_header_def new_bootimg_def total_size_def npages_def)
  show ?thesis using a check_boot_img_header_nonzero_page_size [OF a] by blast
qed

section \<open>Claim C1: offsets and total size by cumulative page rounding\<close>

lemma unat_of_nat_u32: "x < 2 ^ 32 \<Longrightarrow> unat (word_of_nat x :: u32) = x"
  by (simp add: unat_of_nat)

lemma npages_of_nat:
  assumes "ps \<noteq> 0" "unat sz + unat ps - 1 < 2 ^ 32"
  shows "npages sz ps = word_of_nat (pages_spec (unat sz) (unat ps))"
proof -
  have "word_of_nat (unat (npages sz ps)) = (word_of_nat (pages_spec (unat sz) (unat ps)) :: u32)"
    by (simp only: unat_npages [OF assms])
  then show ?thesis by simp
qed

lemma section_no_wrap:
  assumes "0 < p" "(1 + pages_spec s p + r) * p < (2::nat) ^ 32"
  shows "s + p - 1 < 2 ^ 32"
proof -
  have "s + p \<le> pages_spec s p * p + p" using pages_spec_ge [OF assms(1), of s] by simp
  also have "\<dots> = (1 + pages_spec s p) * p" by simp
  also have "\<dots> \<le> (1 + pages_spec s p + r) * p" by (intro mult_le_mono1) simp
  finally show ?thesis using assms(2) by simp
qed

text \<open>
  C1, as the source has it. The offsets and the total size are 32-bit values: for
  \<open>page_size = 65536 = 2 ^ 16\<close>, \<open>kernel_size = 0xFFFF0000\<close> and \<open>ramdisk_size = 1\<close>
  the ramdisk offset \<open>(1 + pages(kernel_size)) * page_size\<close> is \<open>2 ^ 32\<close> and the source
  computes 0; the total size is \<open>2 ^ 32 + 65536\<close> and the source computes 65536.
\<close>

theorem layout_offsets_wrap_counterexample:
  "page_size ((header (new_bootimg android_bootimg_h))
       \<lparr>kernel_size := 0xFFFF0000, ramdisk_size := 1, page_size := 65536\<rparr>) = 2 ^ 16
   \<and> ramdisk_offset ((header (new_bootimg android_bootimg_h))
       \<lparr>kernel_size := 0xFFFF0000, ramdisk_size := 1, page_size := 65536\<rparr>) = 0
   \<and> (1 + pages_spec (unat (0xFFFF0000::u32)) (unat (65536::u32))) * unat (65536::u32) = 4294967296
   \<and> total_size ((header (new_bootimg android_bootimg_h))
       \<lparr>kernel_size := 0xFFFF0000, ramdisk_size := 1, page_size := 65536\<rparr>) = 65536
   \<and> total_size_spec ((header (new_bootimg android_bootimg_h))
       \<lparr>kernel_size := 0xFFFF0000, ramdisk_size := 1, page_size := 65536\<rparr>) = 4295032832"
  by (simp add: new_bootimg_def ramdisk_offset_def total_size_def total_size_spec_def
      npages_def pages_spec_def)

text \<open>
  C1, amended: for every header with \<open>page_size = 2 ^ k\<close>, \<open>k < 32\<close>, whose page-rounded
  total \<open>(1 + pages(kernel_size) + pages(ramdisk_size) + pages(second_size) +
  pages(dt_size)) * page_size\<close> is less than \<open>2 ^ 32\<close>, with \<open>pages(s) = ceil(s /
  page_size)\<close>: the kernel starts at \<open>page_size\<close>, the ramdisk at \<open>(1 +
  pages(kernel_size)) * page_size\<close>, the second stage at \<open>(1 + pages(kernel_size) +
  pages(ramdisk_size)) * page_size\<close>, the device tree at \<open>(1 + pages(kernel_size) +
  pages(ramdisk_size) + pages(second_size)) * page_size\<close>, and \<^verbatim>\<open>total_size\<close> is the
  page-rounded total. The witness is the example of the claim: \<open>page_size = 2048\<close>,
  \<open>kernel_size = 5000\<close>, \<open>ramdisk_size = 3000\<close> give the ramdisk offset 8192 and the
  total size 12288.
\<close>

theorem layout_offsets_page_rounding:
  assumes "k < 32" and "page_size h = 2 ^ k" and "total_size_spec h < 2 ^ 32"
  shows "unat (kernel_offset h) = unat (page_size h)
       \<and> unat (ramdisk_offset h)
            = (1 + pages_spec (unat (kernel_size h)) (unat (page_size h))) * unat (page_size h)
       \<and> unat (second_offset h)
            = (1 + pages_spec (unat (kernel_size h)) (unat (page_size h))
                 + pages_spec (unat (ramdisk_size h)) (unat (page_size h))) * unat (page_size h)
       \<and> unat (devtree_offset h)
            = (1 + pages_spec (unat (kernel_size h)) (unat (page_size h))
                 + pages_spec (unat (ramdisk_size h)) (unat (page_size h))
                 + pages_spec (unat (second_size h)) (unat (page_size h))) * unat (page_size h)
       \<and> unat (total_size h)
            = (1 + pages_spec (unat (kernel_size h)) (unat (page_size h))
                 + pages_spec (unat (ramdisk_size h)) (unat (page_size h))
                 + pages_spec (unat (second_size h)) (unat (page_size h))
                 + pages_spec (unat (dt_size h)) (unat (page_size h))) * unat (page_size h)"
proof -
  define P where "P = unat (page_size h)"
  define a where "a = pages_spec (unat (kernel_size h)) P"
  define b where "b = pages_spec (unat (ramdisk_size h)) P"
  define c where "c = pages_spec (unat (second_size h)) P"
  define d where "d = pages_spec (unat (dt_size h)) P"
  have Pk: "P = 2 ^ k" using assms(1,2) by (simp only: P_def unat_pow2)
  have pos: "0 < P" using Pk by simp
  have nz: "page_size h \<noteq> 0" using pos by (simp add: P_def unat_gt_0)
  have ps: "page_size h = word_of_nat P" by (simp add: P_def)
  have tot: "(1 + a + b + c + d) * P < 2 ^ 32"
    using assms(3) by (simp add: total_size_spec_def Let_def P_def a_def b_def c_def d_def)
  have wa: "unat (kernel_size h) + P - 1 < 2 ^ 32"
    using pos tot by (intro section_no_wrap [where r = "b + c + d"]) (simp_all add: a_def add.assoc)
  have wb: "unat (ramdisk_size h) + P - 1 < 2 ^ 32"
    using pos tot by (intro section_no_wrap [where r = "a + c + d"]) (simp_all add: b_def ac_simps)
  have wc: "unat (second_size h) + P - 1 < 2 ^ 32"
    using pos tot by (intro section_no_wrap [where r = "a + b + d"]) (simp_all add: c_def ac_simps)
  have wd: "unat (dt_size h) + P - 1 < 2 ^ 32"
    using pos tot by (intro section_no_wrap [where r = "a + b + c"]) (simp_all add: d_def ac_simps)
  have n: "npages (kernel_size h) (page_size h) = word_of_nat a"
    using nz wa unfolding a_def P_def by (rule npages_of_nat)
  have m: "npages (ramdisk_size h) (page_size h) = word_of_nat b"
    using nz wb unfolding b_def P_def by (rule npages_of_nat)
  have o': "npages (second_size h) (page_size h) = word_of_nat c"
    using nz wc unfolding c_def P_def by (rule npages_of_nat)
  have p: "npages (dt_size h) (page_size h) = word_of_nat d"
    using nz wd unfolding d_def P_def by (rule npages_of_nat)
  have le1: "(1 + a) * P \<le> (1 + a + b + c + d) * P" by (intro mult_le_mono1) simp
  have le2: "(1 + a + b) * P \<le> (1 + a + b + c + d) * P" by (intro mult_le_mono1) simp
  have le3: "(1 + a + b + c) * P \<le> (1 + a + b + c + d) * P" by (intro mult_le_mono1) simp
  have r: "ramdisk_offset h = word_of_nat ((1 + a) * P)"
    by (simp add: ramdisk_offset_def Let_def n) (simp add: ps algebra_simps)
  have s: "second_offset h = word_of_nat ((1 + a + b) * P)"
    by (simp add: second_offset_def Let_def n m) (simp add: ps algebra_simps)
  have dt: "devtree_offset h = word_of_nat ((1 + a + b + c) * P)"
    by (simp add: devtree_offset_def Let_def n m o') (simp add: ps algebra_simps)
  have t: "total_size h = word_of_nat ((1 + a + b + c + d) * P)"
    by (simp add: total_size_def Let_def n m o' p) (simp add: ps algebra_simps)
  have lt1: "(1 + a) * P < 2 ^ 32" using le1 tot by (rule le_less_trans)
  have lt2: "(1 + a + b) * P < 2 ^ 32" using le2 tot by (rule le_less_trans)
  have lt3: "(1 + a + b + c) * P < 2 ^ 32" using le3 tot by (rule le_less_trans)
  have "unat (ramdisk_offset h) = (1 + a) * P"
    unfolding r by (rule unat_of_nat_u32 [OF lt1])
  moreover have "unat (second_offset h) = (1 + a + b) * P"
    unfolding s by (rule unat_of_nat_u32 [OF lt2])
  moreover have "unat (devtree_offset h) = (1 + a + b + c) * P"
    unfolding dt by (rule unat_of_nat_u32 [OF lt3])
  moreover have "unat (total_size h) = (1 + a + b + c + d) * P"
    unfolding t by (rule unat_of_nat_u32 [OF tot])
  ultimately show ?thesis
    by (simp add: kernel_offset_def P_def a_def b_def c_def d_def)
qed

theorem layout_offsets_page_rounding_witness:
  "(11::nat) < 32
   \<and> page_size ((header (new_bootimg android_bootimg_h))\<lparr>kernel_size := 5000, ramdisk_size := 3000\<rparr>) = 2 ^ 11
   \<and> total_size_spec ((header (new_bootimg android_bootimg_h))\<lparr>kernel_size := 5000, ramdisk_size := 3000\<rparr>) < 2 ^ 32
   \<and> unat (ramdisk_offset ((header (new_bootimg android_bootimg_h))\<lparr>kernel_size := 5000, ramdisk_size := 3000\<rparr>)) = 8192
   \<and> unat (total_size ((header (new_bootimg android_bootimg_h))\<lparr>kernel_size := 5000, ramdisk_size := 3000\<rparr>)) = 12288"
  using layout_offsets_page_rounding
    [of 11 "(header (new_bootimg android_bootimg_h))\<lparr>kernel_size := 5000, ramdisk_size := 3000\<rparr>"]
  by (simp add: new_bootimg_def total_size_spec_def pages_spec_def)

section \<open>Claim C10: the total size wraps around\<close>

text \<open>
  C10: whatever magic of 8 bytes \<^verbatim>\<open>bootimg.h\<close> defines, there is an image with that magic,
  a kernel and a ramdisk of non-zero size and a page size that is a power of two, for
  which the 32-bit \<^verbatim>\<open>total_size\<close> is smaller than the page-rounded total, the backing
  size is smaller than the page-rounded total as well, and \<^verbatim>\<open>check_boot_img_header\<close>
  accepts. (\<open>page_size = 65536\<close>, \<open>kernel_size = 0xFFFF0000\<close>, \<open>ramdisk_size = 1\<close> on a
  backing store of 65536 bytes: the layout needs \<open>2 ^ 32 + 65536\<close> bytes.)
\<close>

theorem total_size_wraps_check_accepts:
  assumes "length (BOOT_MAGIC c) = BOOT_MAGIC_SIZE" and "0 \<notin> set (BOOT_MAGIC c)"
  shows "\<exists>img. magic (header img) = BOOT_MAGIC c
           \<and> kernel_size (header img) \<noteq> 0 \<and> ramdisk_size (header img) \<noteq> 0
           \<and> (\<exists>k<32. page_size (header img) = 2 ^ k)
           \<and> unat (total_size (header img)) < total_size_spec (header img)
           \<and> unat (size' img) < total_size_spec (header img)
           \<and> check_boot_img_header c img = 0"
proof -
  define img where "img = (new_bootimg c)
     \<lparr>size' := 65536,
      header := (header (new_bootimg c))
        \<lparr>kernel_size := 0xFFFF0000, ramdisk_size := 1, page_size := 65536\<rparr>\<rparr>"
  have mg: "magic (header img) = BOOT_MAGIC c"
    using assms(1) by (simp add: img_def new_bootimg_def)
  have cmp: "strncmp (magic (header img)) (BOOT_MAGIC c) BOOT_MAGIC_SIZE = 0"
    using assms by (simp add: mg strncmp_eq_0_iff)
  have sz: "kernel_size (header img) = 0xFFFF0000" "ramdisk_size (header img) = 1"
    "page_size (header img) = 65536" "second_size (header img) = 0" "dt_size (header img) = 0"
    "size' img = 65536"
    by (simp_all add: img_def new_bootimg_def)
  have t: "total_size (header img) = 65536"
    by (simp add: total_size_def sz npages_def)
  have ts: "total_size_spec (header img) = 4295032832"
    by (simp add: total_size_spec_def sz pages_spec_def)
  have k: "\<exists>k<32. page_size (header img) = 2 ^ k"
    by (rule exI [of _ 16]) (simp add: sz)
  have chk: "check_boot_img_header c img = 0"
    by (simp add: check_boot_img_header_def cmp sz t)
  show ?thesis
    using mg k chk t ts sz by (intro exI [of _ img] conjI) simp_all
qed

theorem total_size_wraps_check_accepts_witness:
  "length (BOOT_MAGIC android_bootimg_h) = BOOT_MAGIC_SIZE \<and> 0 \<notin> set (BOOT_MAGIC android_bootimg_h)
   \<and> (\<exists>img. magic (header img) = BOOT_MAGIC android_bootimg_h
           \<and> kernel_size (header img) \<noteq> 0 \<and> ramdisk_size (header img) \<noteq> 0
           \<and> (\<exists>k<32. page_size (header img) = 2 ^ k)
           \<and> unat (total_size (header img)) < total_size_spec (header img)
           \<and> unat (size' img) < total_size_spec (header img)
           \<and> check_boot_img_header android_bootimg_h img = 0)"
proof -
  have a: "length (BOOT_MAGIC android_bootimg_h) = BOOT_MAGIC_SIZE"
    by (simp add: android_bootimg_h_def bytes_of_ANDROID BOOT_MAGIC_SIZE_def)
  have b: "0 \<notin> set (BOOT_MAGIC android_bootimg_h)"
    by (simp add: android_bootimg_h_def bytes_of_ANDROID)
  show ?thesis using a b total_size_wraps_check_accepts [OF a b] by blast
qed

section \<open>Lemmas on the header in the file and on reading it\<close>

lemma length_le32 [simp]: "length (le32 w) = 4"
  by (simp add: le32_def)

lemma rd32_le32 [simp]: "rd32 (le32 w @ xs) = w"
proof -
  have "ucast (ucast w :: byte) OR push_bit 8 (ucast (ucast (drop_bit 8 w) :: byte))
          OR push_bit 16 (ucast (ucast (drop_bit 16 w) :: byte))
          OR push_bit 24 (ucast (ucast (drop_bit 24 w) :: byte)) = w"
  proof (rule bit_word_eqI)
    fix n :: nat
    assume "n < LENGTH(32)"
    then have n: "n < 32" by simp
    consider "n < 8" | "8 \<le> n" "n < 16" | "16 \<le> n" "n < 24" | "24 \<le> n" "n < 32"
      using n by linarith
    then show "bit (ucast (ucast w :: byte) OR push_bit 8 (ucast (ucast (drop_bit 8 w) :: byte))
          OR push_bit 16 (ucast (ucast (drop_bit 16 w) :: byte))
          OR push_bit 24 (ucast (ucast (drop_bit 24 w) :: byte)) :: u32) n = bit w n"
      by cases (auto simp add: bit_simps)
  qed
  then show ?thesis by (simp add: rd32_def le32_def)
qed

lemma length_hdr_bytes:
  "hdr_wf c h \<Longrightarrow> length (hdr_bytes h) = sizeof_boot_img_hdr c"
  by (simp add: hdr_wf_def hdr_bytes_def sizeof_boot_img_hdr_def)

lemma hdr_of_bytes_hdr_bytes:
  assumes "hdr_wf c h"
  shows "hdr_of_bytes c (hdr_bytes h @ rest) = h"
  using assms
  by (simp add: hdr_wf_def hdr_bytes_def hdr_of_bytes_def BOOT_MAGIC_SIZE_def)

lemma hdr_wf_hdr_of_bytes:
  "sizeof_boot_img_hdr c \<le> length bs \<Longrightarrow> hdr_wf c (hdr_of_bytes c bs)"
  by (simp add: hdr_wf_def hdr_of_bytes_def sizeof_boot_img_hdr_def BOOT_MAGIC_SIZE_def)

lemma on_ok_simps [simp]:
  "on_ok (Inl e) f = Inl e" "on_ok (Inr x) f = f x"
  by (simp_all add: on_ok_def)

lemma read_header_decoded:
  assumes "fread (sizeof_boot_img_hdr c) (stream img0) = (Some bs, s)"
    and "img = img0\<lparr>stream := s, header := hdr_of_bytes c bs,
                     size' := of_nat (length (contents s)), is_blkdev := blk s\<rparr>"
  shows "read_header c img0
           = (if check_boot_img_header c img = 0 then Inr img else Inl Not_a_valid_image)"
  using assms by (cases "blk s") (simp_all add: read_header_def Let_def)

lemma main_update_read_error:
  assumes "read_header c (img0\<lparr>stream := target\<lparr>pos := 0\<rparr>\<rparr>) = Inl e"
  shows "main_update c sha strtoul fs config_args img0 target = (Some e, contents target)"
  using assms by (simp add: main_update_def open_bootimg_def)

lemma on_ok_Inr_iff: "on_ok r f = Inr y \<longleftrightarrow> (\<exists>x. r = Inr x \<and> f x = Inr y)"
  by (cases r) simp_all

lemma slurp_section_Inr:
  assumes "slurp_section img offset sz = Inr (d, img')"
  shows "d = take (unat sz) (drop (unat offset) (contents (stream img)))"
    and "length d = unat sz"
    and "img' = img\<lparr>stream := (stream img)\<lparr>pos := unat offset + unat sz\<rparr>\<rparr>"
    and "sz \<noteq> 0" and "unat offset + unat sz \<le> length (contents (stream img))"
  using assms
  by (auto simp add: slurp_section_def fread_def fseek_def split: if_splits)

lemma slurp_file_Inr:
  assumes "slurp_file fs f = Inr (sz, d)"
  shows "length d = unat sz" and "sz \<noteq> 0"
proof -
  obtain bs where bs: "fs f = Some bs" "sz = of_nat (length bs)" "d = take (unat sz) bs" "sz \<noteq> 0"
    using assms by (auto simp add: slurp_file_def Let_def split: option.splits if_splits)
  have "unat sz \<le> length bs"
    by (simp add: bs(2) unat_of_nat)
  then show "length d = unat sz" by (simp add: bs(3))
  show "sz \<noteq> 0" by (rule bs(4))
qed

section \<open>Lemmas on loading the sections\<close>

lemma slurp_section_Inr':
  "slurp_section img offset sz = Inr x \<Longrightarrow>
     fst x = take (unat sz) (drop (unat offset) (contents (stream img)))
     \<and> length (fst x) = unat sz
     \<and> snd x = img\<lparr>stream := (stream img)\<lparr>pos := unat offset + unat sz\<rparr>\<rparr>"
  by (cases x) (auto dest: slurp_section_Inr)

lemma slurp_file_Inr':
  "slurp_file fs f = Inr x \<Longrightarrow> length (snd x) = unat (fst x) \<and> fst x \<noteq> 0"
  by (cases x) (auto dest: slurp_file_Inr)

lemma load_kernel_frame:
  assumes "load_kernel fs img koffset = Inr img'"
  shows "size' img' = size' img \<and> contents (stream img') = contents (stream img)
       \<and> page_size (header img') = page_size (header img)"
  using assms unfolding load_kernel_def
  by (auto simp add: on_ok_Inr_iff split: option.splits dest!: slurp_section_Inr' slurp_file_Inr')

lemma load_ramdisk_frame:
  assumes "load_ramdisk fs img roffset rsize = Inr (rsize', img')"
  shows "size' img' = size' img \<and> contents (stream img') = contents (stream img)
       \<and> page_size (header img') = page_size (header img)"
  using assms unfolding load_ramdisk_def
  by (auto simp add: on_ok_Inr_iff split: option.splits dest!: slurp_section_Inr' slurp_file_Inr')

lemma load_second_frame:
  assumes "load_second fs img soffset ssize = Inr (ssize', img')"
  shows "size' img' = size' img \<and> contents (stream img') = contents (stream img)
       \<and> page_size (header img') = page_size (header img)"
  using assms unfolding load_second_def
  by (auto simp add: on_ok_Inr_iff split: option.splits if_splits
        dest!: slurp_section_Inr' slurp_file_Inr')

lemma load_devtree_frame:
  assumes "load_devtree fs img dtoffset dtsize = Inr (dtsize', img')"
  shows "size' img' = size' img \<and> contents (stream img') = contents (stream img)
       \<and> page_size (header img') = page_size (header img)"
  using assms unfolding load_devtree_def
  by (auto simp add: on_ok_Inr_iff split: option.splits if_splits
        dest!: slurp_section_Inr' slurp_file_Inr')

lemma slurp_images_stages:
  assumes "slurp_images fs img = Inr img'"
  obtains img1 rsize img2 ssize img3 dtsize where
    "page_size (header img) \<noteq> 0"
    "load_kernel fs img (page_size (header img)) = Inr img1"
    "load_ramdisk fs img1
       ((1 + npages (kernel_size (header img)) (page_size (header img))) * page_size (header img))
       (ramdisk_size (header img)) = Inr (rsize, img2)"
    "load_second fs img2
       ((1 + npages (kernel_size (header img)) (page_size (header img))
           + npages rsize (page_size (header img))) * page_size (header img))
       (second_size (header img)) = Inr (ssize, img3)"
    "load_devtree fs img3
       ((1 + npages (kernel_size (header img)) (page_size (header img))
           + npages rsize (page_size (header img))
           + npages ssize (page_size (header img))) * page_size (header img))
       (dt_size (header img)) = Inr (dtsize, img')"
  using assms unfolding slurp_images_def Let_def
  by (auto simp add: on_ok_Inr_iff split: if_splits)

lemma slurp_images_frame:
  assumes "slurp_images fs img = Inr img'"
  shows "size' img' = size' img \<and> contents (stream img') = contents (stream img)
       \<and> page_size (header img') = page_size (header img)"
proof -
  from assms obtain img1 rsize img2 ssize img3 dtsize where
    k: "load_kernel fs img (page_size (header img)) = Inr img1"
    and r: "load_ramdisk fs img1
       ((1 + npages (kernel_size (header img)) (page_size (header img))) * page_size (header img))
       (ramdisk_size (header img)) = Inr (rsize, img2)"
    and s: "load_second fs img2
       ((1 + npages (kernel_size (header img)) (page_size (header img))
           + npages rsize (page_size (header img))) * page_size (header img))
       (second_size (header img)) = Inr (ssize, img3)"
    and d: "load_devtree fs img3
       ((1 + npages (kernel_size (header img)) (page_size (header img))
           + npages rsize (page_size (header img))
           + npages ssize (page_size (header img))) * page_size (header img))
       (dt_size (header img)) = Inr (dtsize, img')"
    by (rule slurp_images_stages)
  show ?thesis
    using load_kernel_frame [OF k] load_ramdisk_frame [OF r] load_second_frame [OF s]
      load_devtree_frame [OF d]
    by simp
qed

text \<open>
  The buffers that loading leaves: each holds as many bytes as the header counts for
  its section, for an image that had no second stage and no device tree in memory
  before (as \<^verbatim>\<open>new_bootimg\<close> leaves it).
\<close>

lemma load_kernel_buffers:
  assumes "load_kernel fs img koffset = Inr img'"
  shows "(\<exists>k. kernel img' = Some k \<and> length k = unat (kernel_size (header img')))
       \<and> ramdisk_size (header img') = ramdisk_size (header img)
       \<and> second_size (header img') = second_size (header img)
       \<and> dt_size (header img') = dt_size (header img)
       \<and> second img' = second img \<and> devtree img' = devtree img"
  using assms unfolding load_kernel_def
  by (auto simp add: on_ok_Inr_iff split: option.splits dest!: slurp_section_Inr' slurp_file_Inr')

lemma load_ramdisk_buffers:
  assumes "load_ramdisk fs img roffset (ramdisk_size (header img)) = Inr (rsize, img')"
  shows "(\<exists>r. ramdisk img' = Some r \<and> length r = unat (ramdisk_size (header img')))
       \<and> kernel_size (header img') = kernel_size (header img)
       \<and> second_size (header img') = second_size (header img)
       \<and> dt_size (header img') = dt_size (header img)
       \<and> kernel img' = kernel img
       \<and> second img' = second img \<and> devtree img' = devtree img"
  using assms unfolding load_ramdisk_def
  by (auto simp add: on_ok_Inr_iff split: option.splits dest!: slurp_section_Inr' slurp_file_Inr')

lemma load_second_buffers:
  assumes "load_second fs img soffset (second_size (header img)) = Inr (ssize, img')"
    and "second img = None"
  shows "length (case second img' of None \<Rightarrow> [] | Some b \<Rightarrow> b) = unat (second_size (header img'))
       \<and> kernel_size (header img') = kernel_size (header img)
       \<and> ramdisk_size (header img') = ramdisk_size (header img)
       \<and> dt_size (header img') = dt_size (header img)
       \<and> kernel img' = kernel img
       \<and> ramdisk img' = ramdisk img \<and> devtree img' = devtree img"
  using assms unfolding load_second_def
  by (auto simp add: on_ok_Inr_iff split: option.splits if_splits
        dest!: slurp_section_Inr' slurp_file_Inr')

lemma load_devtree_buffers:
  assumes "load_devtree fs img dtoffset (dt_size (header img)) = Inr (dtsize, img')"
    and "devtree img = None"
  shows "(case devtree img' of None \<Rightarrow> True | Some d \<Rightarrow> length d = unat (dt_size (header img')))
       \<and> kernel_size (header img') = kernel_size (header img)
       \<and> ramdisk_size (header img') = ramdisk_size (header img)
       \<and> second_size (header img') = second_size (header img)
       \<and> kernel img' = kernel img
       \<and> ramdisk img' = ramdisk img \<and> second img' = second img"
  using assms unfolding load_devtree_def
  by (auto simp add: on_ok_Inr_iff split: option.splits if_splits
        dest!: slurp_section_Inr' slurp_file_Inr')

lemma slurp_images_buffers:
  assumes "slurp_images fs img = Inr img'" and "second img = None" and "devtree img = None"
  shows "page_size (header img') \<noteq> 0
       \<and> (\<exists>k. kernel img' = Some k \<and> length k = unat (kernel_size (header img')))
       \<and> (\<exists>r. ramdisk img' = Some r \<and> length r = unat (ramdisk_size (header img')))
       \<and> length (case second img' of None \<Rightarrow> [] | Some b \<Rightarrow> b)
           = unat (second_size (header img'))
       \<and> (case devtree img' of None \<Rightarrow> True
           | Some d \<Rightarrow> length d = unat (dt_size (header img')))"
proof -
  from assms(1) obtain img1 rsize img2 ssize img3 dtsize where
    p: "page_size (header img) \<noteq> 0"
    and k: "load_kernel fs img (page_size (header img)) = Inr img1"
    and r: "load_ramdisk fs img1
       ((1 + npages (kernel_size (header img)) (page_size (header img))) * page_size (header img))
       (ramdisk_size (header img)) = Inr (rsize, img2)"
    and s: "load_second fs img2
       ((1 + npages (kernel_size (header img)) (page_size (header img))
           + npages rsize (page_size (header img))) * page_size (header img))
       (second_size (header img)) = Inr (ssize, img3)"
    and d: "load_devtree fs img3
       ((1 + npages (kernel_size (header img)) (page_size (header img))
           + npages rsize (page_size (header img))
           + npages ssize (page_size (header img))) * page_size (header img))
       (dt_size (header img)) = Inr (dtsize, img')"
    by (rule slurp_images_stages)
  note kb = load_kernel_buffers [OF k]
  have r': "load_ramdisk fs img1
       ((1 + npages (kernel_size (header img)) (page_size (header img))) * page_size (header img))
       (ramdisk_size (header img1)) = Inr (rsize, img2)"
    using r kb by simp
  note rb = load_ramdisk_buffers [OF r']
  have s': "load_second fs img2
       ((1 + npages (kernel_size (header img)) (page_size (header img))
           + npages rsize (page_size (header img))) * page_size (header img))
       (second_size (header img2)) = Inr (ssize, img3)"
    using s kb rb by simp
  have s0: "second img2 = None" using assms(2) kb rb by simp
  note sb = load_second_buffers [OF s' s0]
  have d': "load_devtree fs img3
       ((1 + npages (kernel_size (header img)) (page_size (header img))
           + npages rsize (page_size (header img))
           + npages ssize (page_size (header img))) * page_size (header img))
       (dt_size (header img3)) = Inr (dtsize, img')"
    using d kb rb sb by simp
  have d0: "devtree img3 = None" using assms(3) kb rb sb by simp
  note db = load_devtree_buffers [OF d' d0]
  have pp: "page_size (header img') \<noteq> 0"
    using p slurp_images_frame [OF assms(1)] by simp
  show ?thesis
    using pp kb rb sb db by auto
qed

section \<open>Lemmas on the sample container\<close>

lemma hdr_wf_new_bootimg:
  "length (BOOT_MAGIC c) = BOOT_MAGIC_SIZE \<Longrightarrow> hdr_wf c (header (new_bootimg c))"
  by (simp add: hdr_wf_def new_bootimg_def)

lemma android_magic:
  "length (BOOT_MAGIC android_bootimg_h) = BOOT_MAGIC_SIZE"
  "0 \<notin> set (BOOT_MAGIC android_bootimg_h)"
  by (simp_all add: android_bootimg_h_def bytes_of_ANDROID BOOT_MAGIC_SIZE_def)

lemma sizeof_android: "sizeof_boot_img_hdr android_bootimg_h = 1632"
  by (simp add: sizeof_boot_img_hdr_def android_bootimg_h_def BOOT_MAGIC_SIZE_def)

lemma hdr_wf_sample: "hdr_wf android_bootimg_h sample_hdr"
  using hdr_wf_new_bootimg [OF android_magic(1)]
  by (simp add: hdr_wf_def sample_hdr_def)

lemma length_hdr_bytes_sample: "length (hdr_bytes sample_hdr) = 1632"
  using length_hdr_bytes [OF hdr_wf_sample] by (simp add: sizeof_android)

lemma length_sample_image: "length sample_image = 10240"
  by (simp add: sample_image_def length_hdr_bytes_sample)

lemma sample_hdr_fields:
  "magic sample_hdr = BOOT_MAGIC android_bootimg_h"
  "kernel_size sample_hdr = 1" "ramdisk_size sample_hdr = 4096" "second_size sample_hdr = 1"
  "dt_size sample_hdr = 0" "page_size sample_hdr = 2048"
  using android_magic(1) by (simp_all add: sample_hdr_def new_bootimg_def)

lemma total_size_sample: "total_size sample_hdr = 10240"
  by (simp add: total_size_def sample_hdr_fields npages_def)

lemma fread_sample_header:
  "fread 1632 sample_target
     = (Some (hdr_bytes sample_hdr), sample_target\<lparr>pos := 1632\<rparr>)"
  by (simp add: fread_def sample_target_def length_sample_image)
     (simp add: sample_image_def length_hdr_bytes_sample)

lemma check_sample:
  "header img = sample_hdr \<Longrightarrow> size' img = 10240
     \<Longrightarrow> check_boot_img_header android_bootimg_h img = 0"
  using android_magic
  by (simp add: check_boot_img_header_def sample_hdr_fields total_size_sample strncmp_eq_0_iff)

lemma read_header_sample:
  "read_header android_bootimg_h (img\<lparr>stream := sample_target\<rparr>)
     = Inr (img\<lparr>stream := sample_target\<lparr>pos := 1632\<rparr>, header := sample_hdr,
                 size' := 10240, is_blkdev := False\<rparr>)"
proof -
  have d: "hdr_of_bytes android_bootimg_h (hdr_bytes sample_hdr) = sample_hdr"
    using hdr_of_bytes_hdr_bytes [OF hdr_wf_sample, of "[]"] by simp
  have c: "check_boot_img_header android_bootimg_h
     (img\<lparr>stream := sample_target\<lparr>pos := 1632\<rparr>, header := sample_hdr,
                 size' := 10240, is_blkdev := False\<rparr>) = 0"
    by (rule check_sample) simp_all
  have l: "length (contents sample_target) = 10240"
    and b: "\<not> blk sample_target"
    by (simp_all add: sample_target_def length_sample_image)
  show ?thesis
    using c
    by (simp add: read_header_def sizeof_android fread_sample_header d Let_def l b)
qed

lemma sample_sections:
  "take (Suc 0) (drop 2048 sample_image) = [0x4B]"
  "take 4096 (drop 4096 sample_image) = replicate 4096 0xAA"
  "take (Suc 0) (drop 8192 sample_image) = [0x55]"
  "take (Suc 0) (drop 6144 sample_image) = [0xAA]"
  by (simp_all add: sample_image_def length_hdr_bytes_sample)

lemma slurp_section_sample:
  "contents (stream img) = sample_image \<Longrightarrow> sz \<noteq> 0 \<Longrightarrow> unat offset + unat sz \<le> 10240 \<Longrightarrow>
   slurp_section img offset sz
     = Inr (take (unat sz) (drop (unat offset) sample_image),
            img\<lparr>stream := (stream img)\<lparr>pos := unat offset + unat sz\<rparr>\<rparr>)"
  by (simp add: slurp_section_def fread_def fseek_def length_sample_image unat_eq_0)

lemma update_args_fields:
  "config_fname (update_args c b f k r s t) = f"
  "kernel_fname (update_args c b f k r s t) = k"
  "ramdisk_fname (update_args c b f k r s t) = r"
  "second_fname (update_args c b f k r s t) = s"
  "devtree_fname (update_args c b f k r s t) = t"
  "is_blkdev (update_args c b f k r s t) = False"
  "kernel (update_args c b f k r s t) = None"
  "ramdisk (update_args c b f k r s t) = None"
  "second (update_args c b f k r s t) = None"
  "devtree (update_args c b f k r s t) = None"
  by (simp_all add: update_args_def new_bootimg_def)

lemma sample_args_fields:
  "config_fname sample_args = None" "kernel_fname sample_args = None"
  "ramdisk_fname sample_args = Some ''initrd.new''" "second_fname sample_args = None"
  "devtree_fname sample_args = None" "is_blkdev sample_args = False"
  "kernel sample_args = None" "ramdisk sample_args = None" "second sample_args = None"
  "devtree sample_args = None"
  by (simp_all add: sample_args_def update_args_fields)

lemma open_read_sample:
  "on_ok (open_bootimg img (Some sample_target)) (read_header android_bootimg_h)
     = Inr (img\<lparr>stream := sample_target\<lparr>pos := 1632\<rparr>, header := sample_hdr,
                 size' := 10240, is_blkdev := False\<rparr>)"
proof -
  have "sample_target\<lparr>pos := 0\<rparr> = sample_target" by (simp add: sample_target_def)
  then show ?thesis by (simp add: open_bootimg_def read_header_sample)
qed

lemma update_header_no_config:
  "config_fname img = None \<Longrightarrow> update_header c strtoul fs [] img = Inr img"
  by (simp add: update_header_def strlen_def cstr_def)

section \<open>Claim C3: what the validation of the reader accepts\<close>

lemma size_field_mod:
  "(w \<le> (of_nat n :: u32)) \<longleftrightarrow> unat w \<le> n mod 2 ^ 32"
  by (simp add: word_le_nat_alt unat_of_nat)

text \<open>
  C3, as the source has it. The validation of the reader does not accept every
  container whose magic equals the sentinel, whose \<open>kernel_size\<close>,
  \<open>ramdisk_size\<close> and \<open>page_size\<close> are not zero and whose computed \<^verbatim>\<open>total_size\<close> does
  not exceed the size of the backing store. The sample container followed by
  4294967295 more bytes is a file of \<open>2\<^sup>3\<^sup>2 + 10239\<close> bytes: its header is the sample
  header, which meets the four conditions on the fields, and its \<^verbatim>\<open>total_size\<close> of
  10240 is far below the size of the file. \<^verbatim>\<open>read_header\<close> assigns the size of the
  file to the \<^verbatim>\<open>unsigned\<close> field \<^verbatim>\<open>size\<close>, which then holds 10239, and rejects the
  container as not valid.
\<close>

theorem reader_rejects_store_beyond_32_bits_counterexample:
  "magic sample_hdr = BOOT_MAGIC android_bootimg_h
   \<and> kernel_size sample_hdr \<noteq> 0 \<and> ramdisk_size sample_hdr \<noteq> 0 \<and> page_size sample_hdr \<noteq> 0
   \<and> unat (total_size sample_hdr) \<le> length (sample_image @ replicate 4294967295 0)
   \<and> fst (fread (sizeof_boot_img_hdr android_bootimg_h)
        \<lparr>contents = sample_image @ replicate 4294967295 0, pos = 0, blk = False\<rparr>)
       = Some (hdr_bytes sample_hdr)
   \<and> hdr_of_bytes android_bootimg_h (hdr_bytes sample_hdr) = sample_hdr
   \<and> read_header android_bootimg_h
        ((new_bootimg android_bootimg_h)
           \<lparr>stream := \<lparr>contents = sample_image @ replicate 4294967295 0, pos = 0, blk = False\<rparr>\<rparr>)
       = Inl Not_a_valid_image"
proof -
  let ?s = "\<lparr>contents = sample_image @ replicate 4294967295 0, pos = 0, blk = False\<rparr>"
  have f: "fread 1632 ?s = (Some (hdr_bytes sample_hdr), ?s\<lparr>pos := 1632\<rparr>)"
    by (simp add: fread_def length_sample_image)
       (simp add: sample_image_def length_hdr_bytes_sample)
  have d: "hdr_of_bytes android_bootimg_h (hdr_bytes sample_hdr) = sample_hdr"
    using hdr_of_bytes_hdr_bytes [OF hdr_wf_sample, of "[]"] by simp
  have c: "header img = sample_hdr \<Longrightarrow> size' img = 10239
     \<Longrightarrow> check_boot_img_header android_bootimg_h img \<noteq> 0" for img
    using android_magic
    by (simp add: check_boot_img_header_def sample_hdr_fields total_size_sample strncmp_eq_0_iff)
  have r: "read_header android_bootimg_h ((new_bootimg android_bootimg_h)\<lparr>stream := ?s\<rparr>)
       = Inl Not_a_valid_image"
    by (simp add: read_header_def sizeof_android f d Let_def length_sample_image c)
  show ?thesis
    using r d by (simp add: sample_hdr_fields total_size_sample length_sample_image sizeof_android f)
qed

text \<open>
  C3, amended: whatever magic of 8 bytes without a NUL \<^verbatim>\<open>bootimg.h\<close> defines, for every
  image (a header with its magic array of 8 bytes, and the size of the backing store as
  the 32-bit field \<^verbatim>\<open>size\<close> holds it), \<^verbatim>\<open>check_boot_img_header\<close> accepts if and only if
  the magic equals the sentinel byte for byte, \<open>kernel_size\<close>, \<open>ramdisk_size\<close> and
  \<open>page_size\<close> are not zero, and the computed \<^verbatim>\<open>total_size\<close> does not exceed the value
  of the field \<^verbatim>\<open>size\<close>. The text fields have no part in it, and no test constrains
  \<open>dt_size\<close>. \<^verbatim>\<open>read_header\<close> sets the field to the size of the backing store modulo
  \<open>2\<^sup>3\<^sup>2\<close>: it returns the image it decoded if and only if the four conditions on the
  fields hold and the computed \<^verbatim>\<open>total_size\<close> does not exceed the size of the backing
  store modulo \<open>2\<^sup>3\<^sup>2\<close>, and fails with "not a valid Android Boot Image" otherwise; the
  update command then ends with that error and the bytes of the target as they were: no
  section has been read or written.
\<close>

theorem reader_validation:
  assumes "length (BOOT_MAGIC c) = BOOT_MAGIC_SIZE" and "0 \<notin> set (BOOT_MAGIC c)"
    and "length (magic (header img)) = BOOT_MAGIC_SIZE"
  shows "(check_boot_img_header c img = 0 \<longleftrightarrow>
            magic (header img) = BOOT_MAGIC c
          \<and> kernel_size (header img) \<noteq> 0 \<and> ramdisk_size (header img) \<noteq> 0
          \<and> page_size (header img) \<noteq> 0
          \<and> total_size (header img) \<le> size' img)
       \<and> check_boot_img_header c
            (img\<lparr>header := (header img)\<lparr>name := nm, cmdline := cl, extra_cmdline := ec\<rparr>\<rparr>)
          = check_boot_img_header c img
       \<and> (\<forall>img0 bs s.
             fread (sizeof_boot_img_hdr c) (stream img0) = (Some bs, s)
             \<and> img = img0\<lparr>stream := s, header := hdr_of_bytes c bs,
                           size' := of_nat (length (contents s)), is_blkdev := blk s\<rparr>
             \<longrightarrow> read_header c img0
                   = (if check_boot_img_header c img = 0 then Inr img
                      else Inl Not_a_valid_image)
               \<and> (read_header c img0 = Inr img \<longleftrightarrow>
                     magic (header img) = BOOT_MAGIC c
                   \<and> kernel_size (header img) \<noteq> 0 \<and> ramdisk_size (header img) \<noteq> 0
                   \<and> page_size (header img) \<noteq> 0
                   \<and> unat (total_size (header img)) \<le> length (contents s) mod 2 ^ 32))
       \<and> (\<forall>img0 target sha strtoul fs config_args.
             read_header c (img0\<lparr>stream := target\<lparr>pos := 0\<rparr>\<rparr>) = Inl Not_a_valid_image
             \<longrightarrow> main_update c sha strtoul fs config_args img0 target
                   = (Some Not_a_valid_image, contents target))"
proof -
  have cmp: "strncmp (magic (header img)) (BOOT_MAGIC c) BOOT_MAGIC_SIZE = 0
      \<longleftrightarrow> magic (header img) = BOOT_MAGIC c"
    using assms by (simp add: strncmp_eq_0_iff)
  have a: "check_boot_img_header c img = 0 \<longleftrightarrow>
            magic (header img) = BOOT_MAGIC c
          \<and> kernel_size (header img) \<noteq> 0 \<and> ramdisk_size (header img) \<noteq> 0
          \<and> page_size (header img) \<noteq> 0
          \<and> total_size (header img) \<le> size' img"
    using cmp by (auto simp add: check_boot_img_header_def)
  have b: "check_boot_img_header c
            (img\<lparr>header := (header img)\<lparr>name := nm, cmdline := cl, extra_cmdline := ec\<rparr>\<rparr>)
          = check_boot_img_header c img"
    by (simp add: check_boot_img_header_def total_size_def)
  have r: "read_header c img0
                   = (if check_boot_img_header c img = 0 then Inr img
                      else Inl Not_a_valid_image)
               \<and> (read_header c img0 = Inr img \<longleftrightarrow>
                     magic (header img) = BOOT_MAGIC c
                   \<and> kernel_size (header img) \<noteq> 0 \<and> ramdisk_size (header img) \<noteq> 0
                   \<and> page_size (header img) \<noteq> 0
                   \<and> unat (total_size (header img)) \<le> length (contents s) mod 2 ^ 32)"
    if f: "fread (sizeof_boot_img_hdr c) (stream img0) = (Some bs, s)"
      and i: "img = img0\<lparr>stream := s, header := hdr_of_bytes c bs,
                           size' := of_nat (length (contents s)), is_blkdev := blk s\<rparr>"
    for img0 bs s
  proof -
    have d: "read_header c img0
        = (if check_boot_img_header c img = 0 then Inr img else Inl Not_a_valid_image)"
      by (rule read_header_decoded [OF f i])
    have sz: "size' img = of_nat (length (contents s))" by (simp add: i)
    have "read_header c img0 = Inr img \<longleftrightarrow> check_boot_img_header c img = 0"
      by (simp add: d)
    also have "\<dots> \<longleftrightarrow> magic (header img) = BOOT_MAGIC c
                   \<and> kernel_size (header img) \<noteq> 0 \<and> ramdisk_size (header img) \<noteq> 0
                   \<and> page_size (header img) \<noteq> 0
                   \<and> unat (total_size (header img)) \<le> length (contents s) mod 2 ^ 32"
      unfolding a sz size_field_mod ..
    finally show ?thesis using d by blast
  qed
  show ?thesis
    using a b r main_update_read_error by blast
qed

theorem reader_validation_witness:
  "length (BOOT_MAGIC android_bootimg_h) = BOOT_MAGIC_SIZE
   \<and> 0 \<notin> set (BOOT_MAGIC android_bootimg_h)
   \<and> length (magic sample_hdr) = BOOT_MAGIC_SIZE
   \<and> total_size sample_hdr \<le> 10240
   \<and> check_boot_img_header android_bootimg_h
        ((new_bootimg android_bootimg_h)
           \<lparr>stream := sample_target\<lparr>pos := 1632\<rparr>, header := sample_hdr, size' := 10240\<rparr>) = 0
   \<and> read_header android_bootimg_h ((new_bootimg android_bootimg_h)\<lparr>stream := sample_target\<rparr>)
       = Inr ((new_bootimg android_bootimg_h)
                \<lparr>stream := sample_target\<lparr>pos := 1632\<rparr>, header := sample_hdr, size' := 10240\<rparr>)
   \<and> unat (total_size sample_hdr) \<le> length (contents sample_target) mod 2 ^ 32
   \<and> check_boot_img_header android_bootimg_h
        ((new_bootimg android_bootimg_h)
           \<lparr>stream := sample_target\<lparr>pos := 1632\<rparr>, header := sample_hdr\<lparr>dt_size := 0\<rparr>,
            size' := 10239\<rparr>) \<noteq> 0"
proof -
  let ?img = "(new_bootimg android_bootimg_h)
           \<lparr>stream := sample_target\<lparr>pos := 1632\<rparr>, header := sample_hdr, size' := 10240\<rparr>"
  let ?img' = "(new_bootimg android_bootimg_h)
           \<lparr>stream := sample_target\<lparr>pos := 1632\<rparr>, header := sample_hdr\<lparr>dt_size := 0\<rparr>,
            size' := 10239\<rparr>"
  have m: "length (magic (header ?img)) = BOOT_MAGIC_SIZE"
    "length (magic (header ?img')) = BOOT_MAGIC_SIZE"
    using android_magic(1) by (simp_all add: sample_hdr_fields)
  note v = reader_validation [OF android_magic m(1), of "[]" "[]" "[]"]
  note v' = reader_validation [OF android_magic m(2), of "[]" "[]" "[]"]
  have f: "fread (sizeof_boot_img_hdr android_bootimg_h)
      (stream ((new_bootimg android_bootimg_h)\<lparr>stream := sample_target\<rparr>))
      = (Some (hdr_bytes sample_hdr), sample_target\<lparr>pos := 1632\<rparr>)"
    by (simp add: sizeof_android fread_sample_header)
  have d: "hdr_of_bytes android_bootimg_h (hdr_bytes sample_hdr) = sample_hdr"
    using hdr_of_bytes_hdr_bytes [OF hdr_wf_sample, of "[]"] by simp
  have e: "?img = ((new_bootimg android_bootimg_h)\<lparr>stream := sample_target\<rparr>)
      \<lparr>stream := sample_target\<lparr>pos := 1632\<rparr>,
       header := hdr_of_bytes android_bootimg_h (hdr_bytes sample_hdr),
       size' := of_nat (length (contents (sample_target\<lparr>pos := 1632\<rparr>))),
       is_blkdev := blk (sample_target\<lparr>pos := 1632\<rparr>)\<rparr>"
    by (simp add: d sample_target_def length_sample_image new_bootimg_def)
  have c: "check_boot_img_header android_bootimg_h ?img = 0"
    using v by (simp add: sample_hdr_fields total_size_sample)
  from v f e have re: "read_header android_bootimg_h
         ((new_bootimg android_bootimg_h)\<lparr>stream := sample_target\<rparr>)
       = (if check_boot_img_header android_bootimg_h ?img = 0 then Inr ?img
          else Inl Not_a_valid_image)
     \<and> (read_header android_bootimg_h ((new_bootimg android_bootimg_h)\<lparr>stream := sample_target\<rparr>)
          = Inr ?img \<longleftrightarrow>
            magic (header ?img) = BOOT_MAGIC android_bootimg_h
          \<and> kernel_size (header ?img) \<noteq> 0 \<and> ramdisk_size (header ?img) \<noteq> 0
          \<and> page_size (header ?img) \<noteq> 0
          \<and> unat (total_size (header ?img))
              \<le> length (contents (sample_target\<lparr>pos := 1632\<rparr>)) mod 2 ^ 32)"
    by blast
  have r: "read_header android_bootimg_h ((new_bootimg android_bootimg_h)\<lparr>stream := sample_target\<rparr>)
       = Inr ?img"
    using re c by simp
  have u: "unat (total_size sample_hdr) \<le> length (contents sample_target) mod 2 ^ 32"
    using re r by simp
  have t: "total_size (sample_hdr\<lparr>dt_size := 0\<rparr>) = 10240"
    by (simp add: total_size_def sample_hdr_fields npages_def)
  have c': "check_boot_img_header android_bootimg_h ?img' \<noteq> 0"
    using v' by (simp add: t)
  show ?thesis
    using android_magic m(1) c r u c' by (simp add: total_size_sample)
qed

section \<open>Lemmas on the size check of an update\<close>

text \<open>
  An error before \<^verbatim>\<open>write_bootimg\<close> leaves the target as it was. An image that
  \<^verbatim>\<open>update_images\<close> returns fits the size that was set; when the sections have been
  loaded and the new total exceeds that size, the error is "updated is too big", as
  for a kernel of 2049 bytes in the sample container.
\<close>

lemma main_update_error_before_write:
  assumes "on_ok (on_ok (on_ok (open_bootimg img0 (Some target)) (read_header c))
                    (update_header c strtoul fs config_args)) (update_images fs) = Inl e"
  shows "main_update c sha strtoul fs config_args img0 target = (Some e, contents target)"
  using assms by (simp add: main_update_def)

lemma update_images_fits:
  assumes "update_images fs img = Inr img''" and "size' img \<noteq> 0"
  shows "total_size (header img'') \<le> size' img''"
proof -
  from assms(1) obtain img' where s: "slurp_images fs img = Inr img'"
    and u: "(let total_size' = total_size (header img')
               in if size' img' = 0 then Inr (img'\<lparr>size' := total_size'\<rparr>)
                  else if total_size' > size' img' then Inl Updated_too_big
                  else Inr img') = Inr img''"
    unfolding update_images_def on_ok_Inr_iff by blast
  have "size' img' \<noteq> 0" using slurp_images_frame [OF s] assms(2) by simp
  then show ?thesis using u by (auto simp add: Let_def split: if_splits)
qed

lemma update_images_too_big:
  assumes "slurp_images fs img = Inr img'" and "size' img \<noteq> 0"
    and "total_size (header img') > size' img"
  shows "update_images fs img = Inl Updated_too_big"
proof -
  have s: "size' img' = size' img" using slurp_images_frame [OF assms(1)] by simp
  show ?thesis using assms s by (simp add: update_images_def Let_def)
qed

lemma too_big_kernel_update_sample:
  "total_size (sample_hdr\<lparr>kernel_size := 2049\<rparr>) = 12288
   \<and> main_update android_bootimg_h sample_sha (\<lambda>v. 0)
        (\<lambda>f. if f = ''zImage.new'' then Some (replicate 2049 0x4B) else None) []
        (update_args android_bootimg_h ''boot.img'' None (Some ''zImage.new'') None None None)
        sample_target
       = (Some Updated_too_big, sample_image)"
proof -
  let ?fs = "\<lambda>f. if f = ''zImage.new'' then Some (replicate 2049 (0x4B :: byte)) else None"
  let ?args = "update_args android_bootimg_h ''boot.img'' None (Some ''zImage.new'') None None None"
  let ?img = "?args\<lparr>stream := sample_target\<lparr>pos := 1632\<rparr>, header := sample_hdr,
                    size' := 10240, is_blkdev := False\<rparr>"
  let ?img' = "?args\<lparr>stream := sample_target\<lparr>pos := 8193\<rparr>,
         header := sample_hdr\<lparr>kernel_size := 2049\<rparr>,
         size' := 10240, is_blkdev := False, kernel := Some (replicate 2049 0x4B),
         ramdisk := Some (replicate 4096 0xAA), second := Some [0x55]\<rparr>"
  have f: "slurp_file ?fs ''zImage.new'' = Inr (2049, replicate 2049 0x4B)"
    by (simp add: slurp_file_def)
  have c: "contents sample_target = sample_image" by (simp add: sample_target_def)
  have sl: "slurp_images ?fs ?img = Inr ?img'"
    by (simp add: slurp_images_def load_kernel_def load_ramdisk_def load_second_def
        load_devtree_def sample_hdr_fields npages_def update_args_fields f
        slurp_section_sample sample_sections c)
  have t: "total_size (sample_hdr\<lparr>kernel_size := 2049\<rparr>) = 12288"
    by (simp add: total_size_def sample_hdr_fields npages_def)
  have nz: "size' ?img \<noteq> 0" by simp
  have t': "total_size (header ?img') > size' ?img" by (simp add: t)
  have chain: "on_ok (on_ok (open_bootimg ?args (Some sample_target)) (read_header android_bootimg_h))
               (update_header android_bootimg_h (\<lambda>v. 0) ?fs []) = Inr ?img"
    by (simp add: open_read_sample update_header_no_config update_args_fields)
  have "main_update android_bootimg_h sample_sha (\<lambda>v. 0) ?fs [] ?args sample_target
      = (Some Updated_too_big, contents sample_target)"
    by (rule main_update_error_before_write)
       (simp add: chain update_images_too_big [OF sl nz t'])
  then show ?thesis using t by (simp add: c)
qed

section \<open>Claim C4: an update that is too big fails before any write\<close>

text \<open>
  C4 fails on the source: an update whose \<^verbatim>\<open>total_size\<close>, computed from the updated
  header, exceeds the size of the container does not always end with "updated is too
  big for the Boot Image". Take \<^verbatim>\<open>abootimg -u boot.img -r initrd.new\<close> on the sample
  container, of 10240 bytes, with a new ramdisk of 4097 bytes, which takes three pages
  where the old one took two. The updated header has a \<^verbatim>\<open>total_size\<close> of 12288.
  \<^verbatim>\<open>update_images\<close> has assigned the size of the new ramdisk to its local \<^verbatim>\<open>rsize\<close>
  when it computes the offset of the second stage: 10240, where the container has it
  at 8192. The read of the second stage starts at the end of the file and fails, and
  the process ends in \<^verbatim>\<open>abort_perror\<close> before the comparison of the sizes is reached.
  The bytes of the target are as they were. The offset is the one that makes C2 fail.
\<close>

theorem too_big_ramdisk_update_fails_in_slurp_section:
  "total_size (sample_hdr\<lparr>ramdisk_size := 4097\<rparr>) = 12288
   \<and> unat (total_size (sample_hdr\<lparr>ramdisk_size := 4097\<rparr>)) > length (contents sample_target)
   \<and> slurp_file (\<lambda>f. if f = ''initrd.new'' then Some (replicate 4097 0x52) else None)
        ''initrd.new'' = Inr (4097, replicate 4097 0x52)
   \<and> second_offset (sample_hdr\<lparr>ramdisk_size := 4097\<rparr>) = 10240
   \<and> second_offset sample_hdr = 8192
   \<and> update_images (\<lambda>f. if f = ''initrd.new'' then Some (replicate 4097 0x52) else None)
        (sample_args\<lparr>stream := sample_target\<lparr>pos := 1632\<rparr>, header := sample_hdr,
                      size' := 10240, is_blkdev := False\<rparr>)
       = Inl Perror
   \<and> main_update android_bootimg_h sample_sha (\<lambda>v. 0)
        (\<lambda>f. if f = ''initrd.new'' then Some (replicate 4097 0x52) else None) []
        sample_args sample_target
       = (Some Perror, sample_image)"
proof -
  let ?fs = "\<lambda>f. if f = ''initrd.new'' then Some (replicate 4097 (0x52 :: byte)) else None"
  let ?img = "sample_args\<lparr>stream := sample_target\<lparr>pos := 1632\<rparr>, header := sample_hdr,
                    size' := 10240, is_blkdev := False\<rparr>"
  have t: "total_size (sample_hdr\<lparr>ramdisk_size := 4097\<rparr>) = 12288"
    by (simp add: total_size_def sample_hdr_fields npages_def)
  have f: "slurp_file ?fs ''initrd.new'' = Inr (4097, replicate 4097 0x52)"
    by (simp add: slurp_file_def)
  have c: "contents sample_target = sample_image" by (simp add: sample_target_def)
  have so: "second_offset (sample_hdr\<lparr>ramdisk_size := 4097\<rparr>) = 10240"
    "second_offset sample_hdr = 8192"
    by (simp_all add: second_offset_def sample_hdr_fields npages_def)
  have past: "slurp_section img 10240 1 = Inl Perror"
    if "contents (stream img) = sample_image" for img
    using that by (simp add: slurp_section_def fread_def fseek_def length_sample_image)
  have sl: "slurp_images ?fs ?img = Inl Perror"
    by (simp add: slurp_images_def load_kernel_def load_ramdisk_def load_second_def
        load_devtree_def sample_hdr_fields npages_def sample_args_fields f
        slurp_section_sample sample_sections c past)
  have u: "update_images ?fs ?img = Inl Perror"
    by (simp add: update_images_def sl)
  have chain: "on_ok (on_ok (open_bootimg sample_args (Some sample_target))
                 (read_header android_bootimg_h))
               (update_header android_bootimg_h (\<lambda>v. 0) ?fs []) = Inr ?img"
    by (simp add: open_read_sample update_header_no_config sample_args_fields)
  have m: "main_update android_bootimg_h sample_sha (\<lambda>v. 0) ?fs [] sample_args sample_target
      = (Some Perror, sample_image)"
    by (simp add: main_update_def chain u c)
  show ?thesis
    using t f so u m by (simp add: c length_sample_image)
qed

section \<open>Lemmas on the checksum and on writing\<close>

lemma SHA_update_Some:
  "len \<le> length d \<Longrightarrow> SHA_update (Inr fed) (Some d) len = Inr (fed @ [take len d])"
  by (simp add: SHA_update_def)

lemma SHA_update_None0:
  "SHA_update (Inr fed) None 0 = Inr (fed @ [[]])"
  by (simp add: SHA_update_def)

lemma write_bootimg_header:
  assumes "page_size (header img) \<noteq> 0" and "sha_feeds img = Inr ctx"
  shows "header (snd (write_bootimg c sha img))
           = (header img)\<lparr>id' := memcpy (id' (header img)) (SHA_final sha ctx)
                                   (min (SHA_DIGEST_SIZE sha) 32)\<rparr>"
proof -
  have m: "(if SHA_DIGEST_SIZE sha > 32 then 32 else SHA_DIGEST_SIZE sha)
      = min (SHA_DIGEST_SIZE sha) 32"
    by (simp add: min_def)
  show ?thesis
    using assms unfolding write_bootimg_def m
    by (simp add: Let_def)
qed

lemma sha_feeds_eq:
  assumes "kernel img = Some k" and "length k = unat (kernel_size (header img))"
    and "ramdisk img = Some r" and "length r = unat (ramdisk_size (header img))"
    and "s = (case second img of None \<Rightarrow> [] | Some b \<Rightarrow> b)"
    and "length s = unat (second_size (header img))"
    and "case devtree img of None \<Rightarrow> True | Some d \<Rightarrow> length d = unat (dt_size (header img))"
  shows "sha_feeds img
           = Inr ([k, le32 (kernel_size (header img)), r, le32 (ramdisk_size (header img)),
                   s, le32 (second_size (header img))]
                  @ (case devtree img of
                       None \<Rightarrow> []
                     | Some d \<Rightarrow> [d, le32 (dt_size (header img))]))"
proof -
  have sec: "SHA_update (Inr fed) (second img) (unat (second_size (header img)))
      = Inr (fed @ [s])" for fed
    using assms(5,6) by (cases "second img") (simp_all add: SHA_update_def)
  have six: "SHA_update (SHA_update (SHA_update (SHA_update (SHA_update (SHA_update SHA_init
        (kernel img) (unat (kernel_size (header img))))
        (Some (le32 (kernel_size (header img)))) 4)
        (ramdisk img) (unat (ramdisk_size (header img))))
        (Some (le32 (ramdisk_size (header img)))) 4)
        (second img) (unat (second_size (header img))))
        (Some (le32 (second_size (header img)))) 4
      = Inr [k, le32 (kernel_size (header img)), r, le32 (ramdisk_size (header img)),
             s, le32 (second_size (header img))]"
    using assms(1-4) by (simp add: SHA_init_def SHA_update_Some sec)
  show ?thesis
  proof (cases "devtree img")
    case None
    then show ?thesis unfolding sha_feeds_def Let_def six by simp
  next
    case (Some d)
    then have "length d = unat (dt_size (header img))" using assms(7) by simp
    then show ?thesis unfolding sha_feeds_def Let_def six using Some
      by (simp add: SHA_update_Some)
  qed
qed

lemma and_then_simps [simp]:
  "and_then (None, s) f = f s" "and_then (Some e, s) f = (Some e, s)"
  by (simp_all add: and_then_def)

lemma fwrite_file:
  "\<not> blk s \<Longrightarrow> sz \<noteq> 0 \<Longrightarrow> sz \<le> length d \<Longrightarrow>
   fwrite (Some d) sz s
     = (None, s\<lparr>contents := take (pos s) (contents s)
                                  @ replicate (pos s - length (contents s)) 0
                                  @ take sz d
                                  @ drop (pos s + sz) (contents s),
                 pos := pos s + sz\<rparr>)"
  by (simp add: fwrite_def)

lemma fwrite_0: "fwrite ptr 0 s = (None, s)"
  by (simp add: fwrite_def)

lemma length_hdr_bytes_android:
  "hdr_wf android_bootimg_h h \<Longrightarrow> length (hdr_bytes h) = 1632"
  by (simp add: length_hdr_bytes sizeof_android)

lemma sample_loaded_fields:
  "kernel sample_loaded = Some [0x4B]" "ramdisk sample_loaded = Some [0x52]"
  "second sample_loaded = Some [0xAA]" "devtree sample_loaded = None"
  "header sample_loaded = sample_hdr\<lparr>ramdisk_size := 1\<rparr>"
  "size' sample_loaded = 10240" "stream sample_loaded = sample_target\<lparr>pos := 6145\<rparr>"
  by (simp_all add: sample_loaded_def sample_args_def update_args_fields)

lemma id_sample: "id' sample_hdr = replicate 32 0"
  by (simp add: sample_hdr_def new_bootimg_def)

lemma write_bootimg_sample:
  assumes "length idv = 32"
    and "header img = sample_hdr\<lparr>ramdisk_size := 1, id' := idv\<rparr>"
    and "kernel img = Some [0x4B]" and "ramdisk img = Some [0x52]"
    and "second img = Some [0xAA]" and "devtree img = None"
    and "size' img = 10240" and "stream img = sample_target\<lparr>pos := p\<rparr>"
  shows "write_bootimg android_bootimg_h sample_sha img
     = (None, img
          \<lparr>header := sample_hdr\<lparr>ramdisk_size := 1, id' := replicate 20 0 @ drop 20 idv\<rparr>,
           stream := \<lparr>contents =
               hdr_bytes (sample_hdr\<lparr>ramdisk_size := 1, id' := replicate 20 0 @ drop 20 idv\<rparr>)
                 @ replicate 416 0 @ [0x4B] @ replicate 2047 0
                 @ [0x52] @ replicate 2047 0
                 @ [0xAA] @ replicate 2047 0
                 @ [0x55] @ replicate 2047 0,
               pos = 8192, blk = False\<rparr>\<rparr>)"
proof -
  have f: "sha_feeds img = Inr [[0x4B], le32 1, [0x52], le32 1, [0xAA], le32 1]"
    using sha_feeds_eq [of img "[0x4B]" "[0x52]" "[0xAA]"] assms
    by (simp add: sample_hdr_fields)
  have w: "hdr_wf android_bootimg_h
      (sample_hdr\<lparr>ramdisk_size := 1, id' := replicate 20 0 @ drop 20 idv\<rparr>)"
    using hdr_wf_sample assms(1) by (simp add: hdr_wf_def)
  show ?thesis
    by (simp add: write_bootimg_def Let_def assms(2-8) sample_hdr_fields f
      sizeof_android fseek_def sample_target_def SHA_final_def sample_sha_def memcpy_def
      fwrite_file length_hdr_bytes_android [OF w]
      write_padding_def padding_size_def ramdisk_offset_def second_offset_def npages_def
      ftruncate_def sample_image_def length_hdr_bytes_sample)
qed

lemma slurp_images_sample:
  "slurp_images sample_fs
     (sample_args\<lparr>stream := sample_target\<lparr>pos := 1632\<rparr>, header := sample_hdr,
                   size' := 10240, is_blkdev := False\<rparr>)
   = Inr sample_loaded"
proof -
  have f: "slurp_file sample_fs ''initrd.new'' = Inr (1, [0x52])"
    by (simp add: slurp_file_def sample_fs_def)
  have c: "contents sample_target = sample_image" by (simp add: sample_target_def)
  show ?thesis
    by (simp add: slurp_images_def load_kernel_def load_ramdisk_def load_second_def
        load_devtree_def sample_hdr_fields npages_def sample_args_fields f
        slurp_section_sample sample_sections c sample_loaded_def)
qed

lemma update_images_sample:
  "update_images sample_fs
     (sample_args\<lparr>stream := sample_target\<lparr>pos := 1632\<rparr>, header := sample_hdr,
                   size' := 10240, is_blkdev := False\<rparr>)
   = Inr sample_loaded"
  by (simp add: update_images_def slurp_images_sample sample_loaded_fields total_size_def
      sample_hdr_fields npages_def)

section \<open>Claim C5: the order in which the checksum is fed\<close>

text \<open>
  C5: for an image whose section buffers hold the bytes that the header counts (as
  \<^verbatim>\<open>update_images\<close> leaves them, by the lemma \<open>slurp_images_buffers\<close>: a kernel and
  a ramdisk, a second stage that is absent with size zero or present, a device tree
  that is absent or present),
  \<^verbatim>\<open>write_bootimg\<close> calls \<^verbatim>\<open>SHA_update\<close> on the kernel bytes, the four bytes of
  \<open>kernel_size\<close> (little-endian), the ramdisk bytes, \<open>ramdisk_size\<close>, the second-stage
  bytes (a call with no bytes when it is absent), \<open>second_size\<close> and, only if there is
  a device-tree buffer, the device-tree bytes and \<open>dt_size\<close>, in this order; the
  digest of their concatenation replaces the first bytes of the id, whatever the id
  was before.
\<close>

theorem checksum_feed_order:
  assumes "page_size (header img) \<noteq> 0"
    and "kernel img = Some k" and "length k = unat (kernel_size (header img))"
    and "ramdisk img = Some r" and "length r = unat (ramdisk_size (header img))"
    and "s = (case second img of None \<Rightarrow> [] | Some b \<Rightarrow> b)"
    and "length s = unat (second_size (header img))"
    and "case devtree img of None \<Rightarrow> True | Some d \<Rightarrow> length d = unat (dt_size (header img))"
  shows "sha_feeds img
           = Inr ([k, le32 (kernel_size (header img)), r, le32 (ramdisk_size (header img)),
                   s, le32 (second_size (header img))]
                  @ (case devtree img of
                       None \<Rightarrow> []
                     | Some d \<Rightarrow> [d, le32 (dt_size (header img))]))
       \<and> id' (header (snd (write_bootimg c sha img)))
           = take (min (SHA_DIGEST_SIZE sha) 32)
               (SHA_hash sha
                  (k @ le32 (kernel_size (header img)) @ r @ le32 (ramdisk_size (header img))
                     @ s @ le32 (second_size (header img))
                     @ (case devtree img of
                          None \<Rightarrow> []
                        | Some d \<Rightarrow> d @ le32 (dt_size (header img)))))
             @ drop (min (SHA_DIGEST_SIZE sha) 32) (id' (header img))"
proof -
  note feeds = sha_feeds_eq [OF assms(2-8)]
  have "id' (header (snd (write_bootimg c sha img)))
      = memcpy (id' (header img))
          (SHA_final sha ([k, le32 (kernel_size (header img)), r, le32 (ramdisk_size (header img)),
                   s, le32 (second_size (header img))]
                  @ (case devtree img of
                       None \<Rightarrow> []
                     | Some d \<Rightarrow> [d, le32 (dt_size (header img))])))
          (min (SHA_DIGEST_SIZE sha) 32)"
    using write_bootimg_header [OF assms(1) feeds] by simp
  then show ?thesis using feeds
    by (cases "devtree img") (simp_all add: memcpy_def SHA_final_def)
qed

theorem checksum_feed_order_witness:
  "page_size (header sample_loaded) \<noteq> 0
   \<and> kernel sample_loaded = Some [0x4B] \<and> length [0x4B :: byte] = unat (kernel_size (header sample_loaded))
   \<and> ramdisk sample_loaded = Some [0x52] \<and> length [0x52 :: byte] = unat (ramdisk_size (header sample_loaded))
   \<and> second sample_loaded = Some [0xAA] \<and> length [0xAA :: byte] = unat (second_size (header sample_loaded))
   \<and> devtree sample_loaded = None
   \<and> sha_feeds sample_loaded = Inr [[0x4B], le32 1, [0x52], le32 1, [0xAA], le32 1]
   \<and> id' (header (snd (write_bootimg android_bootimg_h sample_sha sample_loaded)))
       = take 20 (SHA_hash sample_sha ([0x4B] @ le32 1 @ [0x52] @ le32 1 @ [0xAA] @ le32 1))
         @ replicate 12 0"
  using checksum_feed_order [of sample_loaded "[0x4B]" "[0x52]" "[0xAA]" android_bootimg_h sample_sha]
  by (simp add: sample_loaded_fields sample_hdr_fields id_sample sample_sha_def)

section \<open>Claim C8: the id beyond the digest\<close>

text \<open>
  C8, as the source has it. \<^verbatim>\<open>memcpy\<close> copies the digest over the first bytes of the id
  and nothing writes the others: with a digest of 20 bytes, writing an image whose
  header had an id of 32 bytes \<open>0xFF\<close> succeeds and leaves \<open>0xFF\<close> in the last 12 bytes
  of the id, not zeros.
\<close>

theorem id_tail_not_zeroed_counterexample:
  "SHA_DIGEST_SIZE sample_sha = 20
   \<and> fst (write_bootimg android_bootimg_h sample_sha
          (sample_loaded\<lparr>header := (header sample_loaded)\<lparr>id' := replicate 32 0xFF\<rparr>\<rparr>)) = None
   \<and> drop 20 (id' (header (snd (write_bootimg android_bootimg_h sample_sha
          (sample_loaded\<lparr>header := (header sample_loaded)\<lparr>id' := replicate 32 0xFF\<rparr>\<rparr>)))))
       = replicate 12 0xFF"
proof -
  have "write_bootimg android_bootimg_h sample_sha
       (sample_loaded\<lparr>header := (header sample_loaded)\<lparr>id' := replicate 32 0xFF\<rparr>\<rparr>)
     = (None, (sample_loaded\<lparr>header := (header sample_loaded)\<lparr>id' := replicate 32 0xFF\<rparr>\<rparr>)
          \<lparr>header := sample_hdr\<lparr>ramdisk_size := 1,
                                 id' := replicate 20 0 @ drop 20 (replicate 32 0xFF)\<rparr>,
           stream := \<lparr>contents =
               hdr_bytes (sample_hdr\<lparr>ramdisk_size := 1,
                                      id' := replicate 20 0 @ drop 20 (replicate 32 0xFF)\<rparr>)
                 @ replicate 416 0 @ [0x4B] @ replicate 2047 0
                 @ [0x52] @ replicate 2047 0
                 @ [0xAA] @ replicate 2047 0
                 @ [0x55] @ replicate 2047 0,
               pos = 8192, blk = False\<rparr>\<rparr>)"
    by (rule write_bootimg_sample [where p = 6145]) (simp_all add: sample_loaded_fields)
  then show ?thesis by (simp add: sample_sha_def)
qed

text \<open>
  C8, amended: on every write (an image with a non-zero page size whose section buffers
  can be fed to the hash), the first \<open>min(digest size, 32)\<close> bytes of the id are the
  first bytes of the finalized digest, so a longer digest is truncated to the 32 bytes
  of the field; if the digest is shorter than the id, the remaining bytes of the id
  are those that the header had before the write.
\<close>

theorem id_keeps_bytes_beyond_digest:
  assumes "page_size (header img) \<noteq> 0" and "sha_feeds img = Inr ctx"
    and "length (SHA_final sha ctx) = SHA_DIGEST_SIZE sha"
    and "length (id' (header img)) = 32"
  shows "length (id' (header (snd (write_bootimg c sha img)))) = 32
       \<and> take (min (SHA_DIGEST_SIZE sha) 32) (id' (header (snd (write_bootimg c sha img))))
           = take (min (SHA_DIGEST_SIZE sha) 32) (SHA_final sha ctx)
       \<and> drop (min (SHA_DIGEST_SIZE sha) 32) (id' (header (snd (write_bootimg c sha img))))
           = drop (min (SHA_DIGEST_SIZE sha) 32) (id' (header img))"
  using assms(3,4) by (simp add: write_bootimg_header [OF assms(1,2)] memcpy_def)

theorem id_keeps_bytes_beyond_digest_witness:
  "page_size (header sample_loaded) \<noteq> 0
   \<and> sha_feeds sample_loaded = Inr [[0x4B], le32 1, [0x52], le32 1, [0xAA], le32 1]
   \<and> length (SHA_final sample_sha [[0x4B], le32 1, [0x52], le32 1, [0xAA], le32 1])
       = SHA_DIGEST_SIZE sample_sha
   \<and> length (id' (header sample_loaded)) = 32
   \<and> take 20 (id' (header (snd (write_bootimg android_bootimg_h sample_sha sample_loaded))))
       = SHA_final sample_sha [[0x4B], le32 1, [0x52], le32 1, [0xAA], le32 1]
   \<and> drop 20 (id' (header (snd (write_bootimg android_bootimg_h sample_sha sample_loaded))))
       = drop 20 (id' (header sample_loaded))"
proof -
  have f: "sha_feeds sample_loaded = Inr [[0x4B], le32 1, [0x52], le32 1, [0xAA], le32 1]"
    using sha_feeds_eq [of sample_loaded "[0x4B]" "[0x52]" "[0xAA]"]
    by (simp add: sample_loaded_fields sample_hdr_fields)
  have p: "page_size (header sample_loaded) \<noteq> 0"
    by (simp add: sample_loaded_fields sample_hdr_fields)
  have l: "length (SHA_final sample_sha [[0x4B], le32 1, [0x52], le32 1, [0xAA], le32 1])
       = SHA_DIGEST_SIZE sample_sha"
    by (simp add: SHA_final_def sample_sha_def)
  have i: "length (id' (header sample_loaded)) = 32"
    by (simp add: sample_loaded_fields id_sample)
  show ?thesis
    using id_keeps_bytes_beyond_digest [OF p f l i, of android_bootimg_h] p f l i
    by (simp add: sample_sha_def SHA_final_def)
qed

section \<open>Claim C9: setting the text fields\<close>

lemma bytes_of_extra: "bytes_of ''extra_cmdline='' = [101,120,116,114,97,95,99,109,100,108,105,110,101,61]"
  by (simp add: bytes_of_def)

lemma bytes_of_keys:
  "bytes_of ''cmdline'' = [99,109,100,108,105,110,101]"
  "bytes_of ''extra_cmdline'' = [101,120,116,114,97,95,99,109,100,108,105,110,101]"
  by (simp_all add: bytes_of_def)

lemma cstr_no_nul: "0 \<notin> set s \<Longrightarrow> cstr s = s"
  by (auto simp add: cstr_def)

lemma strcmp_extra: "strcmp [101,120,116,114,97,95,99,109,100,108,105,110,101] (bytes_of ''extra_cmdline'') = 0"
  by (simp add: strcmp_def bytes_of_keys eval_nat_numeral)

lemma strcmp_extra_cmdline: "strcmp [101,120,116,114,97,95,99,109,100,108,105,110,101] (bytes_of ''cmdline'') \<noteq> 0"
  by (simp add: strcmp_def bytes_of_keys eval_nat_numeral)

lemma parse_extra:
  fixes v :: "byte list"
  assumes "0 \<notin> set v" and "10 \<notin> set v" and "v = [] \<or> (hd v \<noteq> 32 \<and> hd v \<noteq> 9)"
  shows "update_header_entry c strtoul img (bytes_of ''extra_cmdline='' @ v)
     = (if BOOT_ARGS_SIZE c \<le> unat (of_nat (length v) :: u32) then Inl Extra_cmdline_too_long
        else on_ok (strcpy (memset (extra_cmdline (header img)) 0 (BOOT_EXTRA_ARGS_SIZE c)) v)
               (\<lambda>buf. Inr (img\<lparr>header := (header img)\<lparr>extra_cmdline := buf\<rparr>\<rparr>)))"
proof -
  let ?L = "[101,120,116,114,97,95,99,109,100,108,105,110,101,61] @ v"
  have c: "cstr ?L = ?L" using assms(1) by (intro cstr_no_nul) simp
  have l: "takeWhile (\<lambda>b. b \<noteq> 10) ?L = ?L" using assms(2) by auto
  have v0: "takeWhile (\<lambda>b. b = 32 \<or> b = 9) v = []"
    using assms(3) by (cases v) simp_all
  have cv: "cstr v = v" using assms(1) by (rule cstr_no_nul)
  have s1: "strspn ?L [32, 9] = 0" by (simp add: strspn_def cstr_def)
  have s2: "strcspn ?L [32, 61, 9] = 13" by (simp add: strcspn_def cstr_def)
  have s3: "strspn (61 # v) [32, 9] = 0" by (simp add: strspn_def cstr_def)
  have s4: "strspn v [32, 9] = 0" by (simp add: strspn_def cv v0)
  show ?thesis
    unfolding update_header_entry_def bytes_of_extra c l Let_def s1 drop_0 s2
    by (simp add: s3 s4 strcmp_extra strcmp_extra_cmdline strlen_def cv)
qed

text \<open>
  The branches of \<^verbatim>\<open>cmdline\<close> and of \<^verbatim>\<open>name\<close>, for a value without a NUL or a newline
  that does not start with a blank (what is left of the line is the value): a command
  line as long as its field or longer is a fatal error, a shorter one is stored in
  full, followed by NULs; a name is cut to the capacity of its field less one, and the
  last byte of the field is a NUL.
\<close>

lemma parse_cmdline:
  fixes v :: "byte list"
  assumes "0 \<notin> set v" and "10 \<notin> set v" and "v = [] \<or> (hd v \<noteq> 32 \<and> hd v \<noteq> 9)"
  shows "update_header_entry c strtoul img (bytes_of ''cmdline='' @ v)
     = (if BOOT_ARGS_SIZE c \<le> unat (of_nat (length v) :: u32) then Inl Cmdline_too_long
        else on_ok (strcpy (memset (cmdline (header img)) 0 (BOOT_ARGS_SIZE c)) v)
               (\<lambda>buf. Inr (img\<lparr>header := (header img)\<lparr>cmdline := buf\<rparr>\<rparr>)))"
proof -
  let ?L = "[99,109,100,108,105,110,101,61] @ v"
  have b: "bytes_of ''cmdline='' = [99,109,100,108,105,110,101,61]"
    by (simp add: bytes_of_def)
  have c: "cstr ?L = ?L" using assms(1) by (intro cstr_no_nul) simp
  have l: "takeWhile (\<lambda>b. b \<noteq> 10) ?L = ?L" using assms(2) by auto
  have v0: "takeWhile (\<lambda>b. b = 32 \<or> b = 9) v = []"
    using assms(3) by (cases v) simp_all
  have cv: "cstr v = v" using assms(1) by (rule cstr_no_nul)
  have s1: "strspn ?L [32, 9] = 0" by (simp add: strspn_def cstr_def)
  have s2: "strcspn ?L [32, 61, 9] = 7" by (simp add: strcspn_def cstr_def)
  have s3: "strspn (61 # v) [32, 9] = 0" by (simp add: strspn_def cstr_def)
  have s4: "strspn v [32, 9] = 0" by (simp add: strspn_def cv v0)
  have t: "strcmp [99,109,100,108,105,110,101] (bytes_of ''cmdline'') = 0"
    by code_simp
  show ?thesis
    unfolding update_header_entry_def b c l Let_def s1 drop_0 s2
    by (simp add: s3 s4 t strlen_def cv)
qed

lemma cmdline_entry:
  fixes v :: "byte list"
  assumes "0 \<notin> set v" and "10 \<notin> set v" and "v = [] \<or> (hd v \<noteq> 32 \<and> hd v \<noteq> 9)"
    and "length v < 2 ^ 32" and "length (cmdline (header img)) = BOOT_ARGS_SIZE c"
  shows "update_header_entry c strtoul img (bytes_of ''cmdline='' @ v)
     = (if BOOT_ARGS_SIZE c \<le> length v then Inl Cmdline_too_long
        else Inr (img\<lparr>header := (header img)
                    \<lparr>cmdline := v @ replicate (BOOT_ARGS_SIZE c - length v) 0\<rparr>\<rparr>))"
proof -
  have u: "unat (word_of_nat (length v) :: u32) = length v"
    using assms(4) by (rule unat_of_nat_u32)
  have cv: "cstr v = v" using assms(1) by (rule cstr_no_nul)
  have "strcpy (memset (cmdline (header img)) 0 (BOOT_ARGS_SIZE c)) v
      = Inr (v @ replicate (BOOT_ARGS_SIZE c - length v) 0)"
    if "length v < BOOT_ARGS_SIZE c"
  proof -
    have "(0 :: byte) # replicate (BOOT_ARGS_SIZE c - Suc (length v)) 0
        = replicate (BOOT_ARGS_SIZE c - length v) 0"
      using that by (simp add: Suc_diff_Suc flip: replicate_Suc)
    then show ?thesis
      using that assms(5) by (simp add: strcpy_def memset_def cv)
  qed
  then show ?thesis
    by (simp add: parse_cmdline [OF assms(1-3)] u not_le)
qed

lemma name_entry:
  fixes v :: "byte list"
  assumes "0 \<notin> set v" and "10 \<notin> set v" and "v = [] \<or> (hd v \<noteq> 32 \<and> hd v \<noteq> 9)"
    and "length (name (header img)) = BOOT_NAME_SIZE c" and "0 < BOOT_NAME_SIZE c"
  shows "update_header_entry c strtoul img (bytes_of ''name='' @ v)
     = Inr (img\<lparr>header := (header img)
              \<lparr>name := take (BOOT_NAME_SIZE c - 1) (v @ replicate (BOOT_NAME_SIZE c) 0) @ [0]\<rparr>\<rparr>)"
proof -
  let ?L = "[110,97,109,101,61] @ v"
  have b: "bytes_of ''name='' = [110,97,109,101,61]" "bytes_of ''name'' = [110,97,109,101]"
    by (simp_all add: bytes_of_def)
  have c: "cstr ?L = ?L" using assms(1) by (intro cstr_no_nul) simp
  have l: "takeWhile (\<lambda>b. b \<noteq> 10) ?L = ?L" using assms(2) by auto
  have v0: "takeWhile (\<lambda>b. b = 32 \<or> b = 9) v = []"
    using assms(3) by (cases v) simp_all
  have cv: "cstr v = v" using assms(1) by (rule cstr_no_nul)
  have s1: "strspn ?L [32, 9] = 0" by (simp add: strspn_def cstr_def)
  have s2: "strcspn ?L [32, 61, 9] = 4" by (simp add: strcspn_def cstr_def)
  have s3: "strspn (61 # v) [32, 9] = 0" by (simp add: strspn_def cstr_def)
  have s4: "strspn v [32, 9] = 0" by (simp add: strspn_def cv v0)
  have t: "strcmp [110,97,109,101] (bytes_of ''cmdline'') \<noteq> 0"
    "strcmp [110,97,109,101] (bytes_of ''extra_cmdline'') \<noteq> 0"
    "strncmp [110,97,109,101] (bytes_of ''name'') 4 = 0"
    by code_simp+
  have n: "(take (BOOT_NAME_SIZE c) (v @ replicate (BOOT_NAME_SIZE c) 0))[BOOT_NAME_SIZE c - 1 := 0]
      = take (BOOT_NAME_SIZE c - 1) (v @ replicate (BOOT_NAME_SIZE c) 0) @ [0]"
  proof -
    define xs where "xs = take (BOOT_NAME_SIZE c) (v @ replicate (BOOT_NAME_SIZE c) (0 :: byte))"
    have lx: "length xs = BOOT_NAME_SIZE c" by (simp add: xs_def)
    have "xs[BOOT_NAME_SIZE c - 1 := 0] = take (BOOT_NAME_SIZE c - 1) xs @ [0]"
      using lx assms(5) by (simp add: upd_conv_take_nth_drop)
    moreover have "take (BOOT_NAME_SIZE c - 1) xs
        = take (BOOT_NAME_SIZE c - 1) (v @ replicate (BOOT_NAME_SIZE c) 0)"
      by (simp add: xs_def min_def)
    ultimately show ?thesis by (simp add: xs_def)
  qed
  have n': "(strncpy (name (header img)) v (BOOT_NAME_SIZE c))[BOOT_NAME_SIZE c - 1 := 0]
      = take (BOOT_NAME_SIZE c - 1) (v @ replicate (BOOT_NAME_SIZE c) 0) @ [0]"
  proof -
    have "strncpy (name (header img)) v (BOOT_NAME_SIZE c)
        = take (BOOT_NAME_SIZE c) (v @ replicate (BOOT_NAME_SIZE c) 0)"
      using assms(4) by (simp add: strncpy_def cv)
    then show ?thesis by (simp only: n)
  qed
  show ?thesis
    unfolding update_header_entry_def b(1) c l Let_def s1 drop_0 s2
    by (simp add: s3 s4 t n' [unfolded One_nat_def])
qed

text \<open>
  C9 fails on the source for \<^verbatim>\<open>extra_cmdline\<close>, whose length is compared with
  \<^verbatim>\<open>BOOT_ARGS_SIZE\<close>, the capacity of \<^verbatim>\<open>cmdline\<close>: whenever \<^verbatim>\<open>bootimg.h\<close> gives
  \<^verbatim>\<open>extra_cmdline\<close> the larger capacity, the line \<open>extra_cmdline=\<close> followed by
  \<^verbatim>\<open>BOOT_ARGS_SIZE\<close> letters \<open>a\<close>, a value shorter than the capacity of the field, is
  a fatal error instead of being stored. The witness is the instance for the sizes of
  the Android format, 512 and 1024.
\<close>

theorem extra_cmdline_checked_against_cmdline_capacity:
  assumes "BOOT_ARGS_SIZE c < BOOT_EXTRA_ARGS_SIZE c" and "BOOT_ARGS_SIZE c < 2 ^ 32"
  shows "strlen (replicate (BOOT_ARGS_SIZE c) 97) < BOOT_EXTRA_ARGS_SIZE c
       \<and> update_header_entry c strtoul img
            (bytes_of ''extra_cmdline='' @ replicate (BOOT_ARGS_SIZE c) 97)
          = Inl Extra_cmdline_too_long"
proof -
  let ?v = "replicate (BOOT_ARGS_SIZE c) (97 :: byte)"
  have u: "unat (word_of_nat (BOOT_ARGS_SIZE c) :: u32) = BOOT_ARGS_SIZE c"
    using assms(2) by (rule unat_of_nat_u32)
  have v: "0 \<notin> set ?v" "10 \<notin> set ?v" "?v = [] \<or> (hd ?v \<noteq> 32 \<and> hd ?v \<noteq> 9)"
    by (cases "BOOT_ARGS_SIZE c = 0"; simp)+
  have "strlen ?v < BOOT_EXTRA_ARGS_SIZE c"
    using assms(1) v(1) by (simp add: strlen_def cstr_no_nul)
  then show ?thesis by (simp add: parse_extra [OF v] u)
qed

theorem extra_cmdline_checked_against_cmdline_capacity_witness:
  "BOOT_ARGS_SIZE android_bootimg_h < BOOT_EXTRA_ARGS_SIZE android_bootimg_h
   \<and> BOOT_ARGS_SIZE android_bootimg_h < 2 ^ 32
   \<and> BOOT_EXTRA_ARGS_SIZE android_bootimg_h = 1024
   \<and> strlen (replicate 512 97) = 512
   \<and> update_header_entry android_bootimg_h (\<lambda>v. 0) (new_bootimg android_bootimg_h)
        (bytes_of ''extra_cmdline='' @ replicate 512 97)
      = Inl Extra_cmdline_too_long"
proof -
  have a: "BOOT_ARGS_SIZE android_bootimg_h < BOOT_EXTRA_ARGS_SIZE android_bootimg_h"
    and b: "BOOT_ARGS_SIZE android_bootimg_h < 2 ^ 32"
    and c: "BOOT_ARGS_SIZE android_bootimg_h = 512"
    by (simp_all add: android_bootimg_h_def)
  have "0 \<notin> set (replicate 512 (97 :: byte))" by simp
  then have l: "strlen (replicate 512 97) = 512" by (simp add: strlen_def cstr_no_nul)
  show ?thesis
    using extra_cmdline_checked_against_cmdline_capacity
      [OF a b, of "\<lambda>v. 0" "new_bootimg android_bootimg_h"] a b l
    by (simp add: c) (simp add: android_bootimg_h_def)
qed

section \<open>Claim C2: an update of the ramdisk only\<close>

text \<open>
  C2 fails on the source. In the sample container the second stage is the byte \<open>0x55\<close>
  at offset 8192. The update with a ramdisk of one byte succeeds, and in the rewritten
  container, whose second stage is at offset 6144, the second stage is the byte
  \<open>0xAA\<close>: \<^verbatim>\<open>update_images\<close> has read it from the old container at the offset
  computed from the size of the new ramdisk, that is from the middle of the old
  ramdisk.
\<close>

theorem ramdisk_update_changes_second_stage:
  "main_update android_bootimg_h sample_sha (\<lambda>v. 0) sample_fs [] sample_args sample_target
     = (None,
        hdr_bytes (sample_hdr\<lparr>ramdisk_size := 1, id' := replicate 20 0 @ replicate 12 0\<rparr>)
          @ replicate 416 0 @ [0x4B] @ replicate 2047 0
          @ [0x52] @ replicate 2047 0
          @ [0xAA] @ replicate 2047 0
          @ [0x55] @ replicate 2047 0)
   \<and> take (unat (second_size sample_hdr)) (drop (unat (second_offset sample_hdr)) sample_image)
       = [0x55]
   \<and> second_size (sample_hdr\<lparr>ramdisk_size := 1\<rparr>) = 1
   \<and> second_offset (sample_hdr\<lparr>ramdisk_size := 1\<rparr>) = 6144
   \<and> take 1 (drop 6144
        (snd (main_update android_bootimg_h sample_sha (\<lambda>v. 0) sample_fs [] sample_args
                sample_target)))
       = [0xAA]"
proof -
  have chain: "on_ok (on_ok (on_ok (open_bootimg sample_args (Some sample_target))
                      (read_header android_bootimg_h))
                 (update_header android_bootimg_h (\<lambda>v. 0) sample_fs []))
           (update_images sample_fs) = Inr sample_loaded"
    by (simp add: open_read_sample update_header_no_config sample_args_fields
        update_images_sample)
  have w: "write_bootimg android_bootimg_h sample_sha sample_loaded
     = (None, sample_loaded
          \<lparr>header := sample_hdr\<lparr>ramdisk_size := 1,
                                 id' := replicate 20 0 @ drop 20 (replicate 32 0)\<rparr>,
           stream := \<lparr>contents =
               hdr_bytes (sample_hdr\<lparr>ramdisk_size := 1,
                                      id' := replicate 20 0 @ drop 20 (replicate 32 0)\<rparr>)
                 @ replicate 416 0 @ [0x4B] @ replicate 2047 0
                 @ [0x52] @ replicate 2047 0
                 @ [0xAA] @ replicate 2047 0
                 @ [0x55] @ replicate 2047 0,
               pos = 8192, blk = False\<rparr>\<rparr>)"
    by (rule write_bootimg_sample [where p = 6145])
       (simp_all add: sample_loaded_fields sample_hdr_def new_bootimg_def)
  have m: "main_update android_bootimg_h sample_sha (\<lambda>v. 0) sample_fs [] sample_args sample_target
     = (None,
        hdr_bytes (sample_hdr\<lparr>ramdisk_size := 1, id' := replicate 20 0 @ replicate 12 0\<rparr>)
          @ replicate 416 0 @ [0x4B] @ replicate 2047 0
          @ [0x52] @ replicate 2047 0
          @ [0xAA] @ replicate 2047 0
          @ [0x55] @ replicate 2047 0)"
    unfolding main_update_def chain by (simp add: w)
  have l: "length (hdr_bytes (sample_hdr\<lparr>ramdisk_size := 1,
      id' := replicate 20 0 @ replicate 12 0\<rparr>)) = 1632"
    using hdr_wf_sample by (intro length_hdr_bytes_android) (simp add: hdr_wf_def)
  have o: "second_offset sample_hdr = 8192" "second_offset (sample_hdr\<lparr>ramdisk_size := 1\<rparr>) = 6144"
    by (simp_all add: second_offset_def sample_hdr_fields npages_def)
  show ?thesis
    unfolding m by (simp add: o sample_hdr_fields sample_sections l)
qed

end
